theory Spec2Isabelle
  imports Complex_Main
begin

chapter \<open>Audio forensics workstation: the UI component and the engine it commands\<close>

text \<open>
  The sources are the Svelte component \<open>App.svelte\<close> and its tests. The functions of the
  component that the properties below are about are embedded here: \<open>loadAudio\<close>,
  \<open>exportAudio\<close>, \<open>createAudioBuffer\<close>, \<open>drawSpectrogram\<close>, \<open>renderSpectrogramToCache\<close>,
  \<open>handleCanvasMouseMove\<close> and \<open>makeSaturationCurve\<close>. The component's variables are one
  record, each function takes the record and returns it updated; dialogs and commands
  it issues are returned as a trace. One call of a function is one step: what Svelte's
  reactive statements or the user do between two steps is not part of a step. The engine
  that answers the commands is not among the sources and is modelled from the
  specification.
\<close>

section \<open>JavaScript doubles\<close>

text \<open>
  The selection times and the filter frequencies of the component come out of divisions
  and are compared with constants, so they are modelled as the doubles of JavaScript:
  a finite value, an infinity or \<open>NaN\<close>, with every arithmetic result rounded to the
  nearest double, ties to even. The sign of zero is not modelled, every zero is \<open>+0\<close>:
  the zero divisors of the handlers are differences of equal numbers, which are \<open>+0\<close>.
\<close>

datatype jsnum = Fin real | PosInf | NegInf | NaN

definition pow2 :: "int \<Rightarrow> real" where
  "pow2 k = (if 0 \<le> k then 2 ^ nat k else 1 / 2 ^ nat (- k))"

definition round_half_even :: "real \<Rightarrow> int" where
  "round_half_even q =
     (let f = \<lfloor>q\<rfloor>; d = q - of_int f
      in if d < 1 / 2 then f else if 1 / 2 < d then f + 1 else if even f then f else f + 1)"

text \<open>
  Rounding of a real to binary64: 53 significant bits, exponents from \<open>-1022\<close> (below it
  the spacing stays \<open>2^-1074\<close>), overflow to an infinity from \<open>2^1024\<close> on.
\<close>

definition binary64 :: "real \<Rightarrow> jsnum" where
  "binary64 x =
     (if x = 0 then Fin 0
      else
        let e = max \<lfloor>log 2 \<bar>x\<bar>\<rfloor> (- 1022);
            ulp = pow2 (e - 52);
            r = of_int (round_half_even (x / ulp)) * ulp
        in if pow2 1024 \<le> \<bar>r\<bar> then (if 0 < x then PosInf else NegInf) else Fin r)"

definition js_inf :: "bool \<Rightarrow> jsnum" where
  "js_inf positive = (if positive then PosInf else NegInf)"

fun js_plus :: "jsnum \<Rightarrow> jsnum \<Rightarrow> jsnum" where
  "js_plus NaN b = NaN"
| "js_plus a NaN = NaN"
| "js_plus (Fin a) (Fin b) = binary64 (a + b)"
| "js_plus PosInf NegInf = NaN"
| "js_plus NegInf PosInf = NaN"
| "js_plus PosInf b = PosInf"
| "js_plus NegInf b = NegInf"
| "js_plus (Fin a) b = b"

fun js_minus :: "jsnum \<Rightarrow> jsnum \<Rightarrow> jsnum" where
  "js_minus NaN b = NaN"
| "js_minus a NaN = NaN"
| "js_minus (Fin a) (Fin b) = binary64 (a - b)"
| "js_minus PosInf PosInf = NaN"
| "js_minus NegInf NegInf = NaN"
| "js_minus PosInf b = PosInf"
| "js_minus NegInf b = NegInf"
| "js_minus (Fin a) PosInf = NegInf"
| "js_minus (Fin a) NegInf = PosInf"

fun js_times :: "jsnum \<Rightarrow> jsnum \<Rightarrow> jsnum" where
  "js_times NaN b = NaN"
| "js_times a NaN = NaN"
| "js_times (Fin a) (Fin b) = binary64 (a * b)"
| "js_times (Fin a) PosInf = (if a = 0 then NaN else js_inf (0 < a))"
| "js_times (Fin a) NegInf = (if a = 0 then NaN else js_inf (a < 0))"
| "js_times PosInf (Fin b) = (if b = 0 then NaN else js_inf (0 < b))"
| "js_times NegInf (Fin b) = (if b = 0 then NaN else js_inf (b < 0))"
| "js_times PosInf PosInf = PosInf"
| "js_times NegInf NegInf = PosInf"
| "js_times PosInf NegInf = NegInf"
| "js_times NegInf PosInf = NegInf"

fun js_divide :: "jsnum \<Rightarrow> jsnum \<Rightarrow> jsnum" where
  "js_divide NaN b = NaN"
| "js_divide a NaN = NaN"
| "js_divide (Fin a) (Fin b) =
     (if b = 0 then (if a = 0 then NaN else js_inf (0 < a)) else binary64 (a / b))"
| "js_divide (Fin a) b = Fin 0"
| "js_divide PosInf (Fin b) = js_inf (0 \<le> b)"
| "js_divide NegInf (Fin b) = js_inf (b < 0)"
| "js_divide a b = NaN"

text \<open>\<open>Math.min\<close>, \<open>Math.max\<close> and \<open>Math.abs\<close> do not round; \<open>NaN\<close> in gives \<open>NaN\<close> out.\<close>

fun js_min :: "jsnum \<Rightarrow> jsnum \<Rightarrow> jsnum" where
  "js_min NaN b = NaN"
| "js_min a NaN = NaN"
| "js_min NegInf b = NegInf"
| "js_min a NegInf = NegInf"
| "js_min PosInf b = b"
| "js_min a PosInf = a"
| "js_min (Fin a) (Fin b) = Fin (min a b)"

fun js_max :: "jsnum \<Rightarrow> jsnum \<Rightarrow> jsnum" where
  "js_max NaN b = NaN"
| "js_max a NaN = NaN"
| "js_max PosInf b = PosInf"
| "js_max a PosInf = PosInf"
| "js_max NegInf b = b"
| "js_max a NegInf = a"
| "js_max (Fin a) (Fin b) = Fin (max a b)"

fun js_abs :: "jsnum \<Rightarrow> jsnum" where
  "js_abs NaN = NaN"
| "js_abs (Fin a) = Fin \<bar>a\<bar>"
| "js_abs a = PosInf"

text \<open>\<open>a < b\<close>; a comparison with \<open>NaN\<close> is false.\<close>

fun js_lt :: "jsnum \<Rightarrow> jsnum \<Rightarrow> bool" where
  "js_lt NaN b = False"
| "js_lt a NaN = False"
| "js_lt (Fin a) (Fin b) = (a < b)"
| "js_lt a NegInf = False"
| "js_lt PosInf b = False"
| "js_lt a b = True"

section \<open>Sample arithmetic and arrays\<close>

text \<open>
  The other numbers of the UI (samples, decibels, pixel coordinates) are modelled as
  reals. A division whose divisor is zero gives a non-finite number in JavaScript; for
  these the model returns \<open>None\<close> there instead of HOL's \<open>x / 0 = 0\<close>. Reading an array
  past its end gives \<open>undefined\<close>, modelled as \<open>None\<close>.
\<close>

definition js_div :: "real \<Rightarrow> real \<Rightarrow> real option" where
  "js_div a b = (if b = 0 then None else Some (a / b))"

definition js_index :: "'a list \<Rightarrow> nat \<Rightarrow> 'a option" where
  "js_index xs i = (if i < length xs then Some (xs ! i) else None)"

section \<open>Command results as the UI declares them\<close>

record AudioInfo =
  duration :: real
  sample_rate :: nat
  channels :: nat

record SpectrogramData =
  data :: "real list list"
  times :: "real list"
  max_freq :: real

record ForensicData =
  enf_present :: bool
  enf_strength_db :: real
  grid_freq :: real
  splice_times :: "real list"
  snr_db :: real
  dynamic_range_db :: real
  has_clipping :: bool
  clipped_count :: nat

record AudioSamples =
  samples :: "real list"
  sample_rate :: nat
  channels :: nat

text \<open>
  The same four interface declarations as data: each field with its declared type,
  in declaration order.
\<close>

datatype ts_type = TNumber | TBoolean | TArray ts_type

type_synonym interface = "(string \<times> ts_type) list"

definition AudioInfo_interface :: interface where
  "AudioInfo_interface =
     [(''duration'', TNumber), (''sample_rate'', TNumber), (''channels'', TNumber)]"

definition SpectrogramData_interface :: interface where
  "SpectrogramData_interface =
     [(''data'', TArray (TArray TNumber)), (''times'', TArray TNumber), (''max_freq'', TNumber)]"

definition ForensicData_interface :: interface where
  "ForensicData_interface =
     [(''enf_present'', TBoolean), (''enf_strength_db'', TNumber), (''grid_freq'', TNumber),
      (''splice_times'', TArray TNumber), (''snr_db'', TNumber),
      (''dynamic_range_db'', TNumber), (''has_clipping'', TBoolean),
      (''clipped_count'', TNumber)]"

definition AudioSamples_interface :: interface where
  "AudioSamples_interface =
     [(''samples'', TArray TNumber), (''sample_rate'', TNumber), (''channels'', TNumber)]"

section \<open>Component state\<close>

datatype filter_kind = highpass | lowpass

record canvas_element =
  width :: nat
  height :: nat
  rect_left :: real
  rect_top :: real

record mouse_event =
  clientX :: real
  clientY :: real
  shiftKey :: bool

record app =
  canvas :: "canvas_element option"
  ctx :: bool
  spectrogramNeedsRedraw :: bool
  audioInfo :: "AudioInfo option"
  spectrogramData :: "SpectrogramData option"
  forensicData :: "ForensicData option"
  filePath :: string
  loading :: bool
  loadingStage :: string
  error :: string
  maxFreq :: real
  audioBuffer :: "real option list list option"
  isPlaying :: bool
  currentTime :: real
  pausedAt :: real
  dynamicsLow :: real
  dynamicsHigh :: real
  selectionStart :: "jsnum option"
  selectionEnd :: "jsnum option"
  isSelecting :: bool
  exportLoading :: bool
  highPassFreq :: jsnum
  lowPassFreq :: jsnum
  draggingFilter :: "filter_kind option"
  filterHover :: "filter_kind option"
  cachedMinDb :: real
  cachedMaxDb :: real
  viridisLUT :: "nat list option"
  dimmedLUT :: "nat list option"

definition initial_app :: app where
  "initial_app =
     \<lparr>canvas = None, ctx = False, spectrogramNeedsRedraw = True,
      audioInfo = None, spectrogramData = None, forensicData = None,
      filePath = '''', loading = False, loadingStage = '''', error = '''',
      maxFreq = 8000, audioBuffer = None,
      isPlaying = False, currentTime = 0, pausedAt = 0,
      dynamicsLow = - 100, dynamicsHigh = 0,
      selectionStart = None, selectionEnd = None, isSelecting = False,
      exportLoading = False,
      highPassFreq = Fin 100, lowPassFreq = Fin 8000,
      draggingFilter = None, filterHover = None,
      cachedMinDb = 0, cachedMaxDb = 0,
      viridisLUT = None, dimmedLUT = None\<rparr>"

section \<open>External collaborators of the UI\<close>

record dialog_filter =
  name :: string
  extensions :: "string list"

record open_options =
  multiple :: bool
  filters :: "dialog_filter list"

record save_options =
  filters :: "dialog_filter list"
  defaultPath :: string

datatype invocation =
    Load_audio string
  | Compute_spectrogram real
  | Analyze_forensics
  | Get_audio_samples
  | Export_audio string jsnum jsnum

datatype effect = OpenDialog open_options | SaveDialog save_options | Invoke invocation

text \<open>
  What the dialogs, the command transport and the Web Audio allocator answer is not
  decided by the UI code; it is a parameter. \<open>Inl e\<close> is a rejected promise or a thrown
  exception, already converted by \<open>String(e)\<close>.
\<close>

record env =
  open_dialog :: "open_options \<Rightarrow> string + string option"
  save_dialog :: "save_options \<Rightarrow> string + string option"
  invoke_load_audio :: "string \<Rightarrow> string + AudioInfo"
  invoke_compute_spectrogram :: "real \<Rightarrow> string + SpectrogramData"
  invoke_analyze_forensics :: "string + ForensicData"
  invoke_get_audio_samples :: "string + AudioSamples"
  invoke_export_audio :: "string \<Rightarrow> jsnum \<Rightarrow> jsnum \<Rightarrow> string option"
  createBuffer :: "nat \<Rightarrow> nat \<Rightarrow> nat \<Rightarrow> string + real option list list"

section \<open>drawSpectrogram: the cached decibel range\<close>

text \<open>
  \<open>minDb\<close> starts at \<open>Infinity\<close> and \<open>maxDb\<close> at \<open>-Infinity\<close>; \<open>None\<close> stands for that
  initial value. A comparison with \<open>undefined\<close> (a read past the end of a row) is false.
\<close>

definition scanCell :: "real option \<Rightarrow> real option \<times> real option \<Rightarrow> real option \<times> real option" where
  "scanCell val acc =
     (case val of
        None \<Rightarrow> acc
      | Some v \<Rightarrow>
          (let (minDb, maxDb) = acc;
               maxDb' = (case maxDb of None \<Rightarrow> Some v | Some m \<Rightarrow> if v > m then Some v else Some m);
               minDb' = (case minDb of None \<Rightarrow> Some v | Some m \<Rightarrow> if v < m then Some v else Some m)
           in (minDb', maxDb')))"

function scanRow :: "real list \<Rightarrow> nat \<Rightarrow> nat \<Rightarrow> real option \<times> real option
    \<Rightarrow> real option \<times> real option" where
  "scanRow frame numBins j acc =
     (if j < numBins then scanRow frame numBins (j + 1) (scanCell (js_index frame j) acc)
      else acc)"
  by pat_completeness auto
termination
  by (relation "measure (\<lambda>(frame, numBins, j, acc). numBins - j)") auto

function scanFrames :: "real list list \<Rightarrow> nat \<Rightarrow> nat \<Rightarrow> nat \<Rightarrow> real option \<times> real option
    \<Rightarrow> real option \<times> real option" where
  "scanFrames dat numFrames numBins i acc =
     (if i < numFrames then scanFrames dat numFrames numBins (i + 1) (scanRow (dat ! i) numBins 0 acc)
      else acc)"
  by pat_completeness auto
termination
  by (relation "measure (\<lambda>(dat, numFrames, numBins, i, acc). numFrames - i)") auto

declare scanRow.simps [simp del] scanFrames.simps [simp del]

text \<open>The bin count is taken from row 0: \<open>data[0]?.length || 0\<close>.\<close>

definition numBinsOf :: "real list list \<Rightarrow> nat" where
  "numBinsOf dat = (case js_index dat 0 of None \<Rightarrow> 0 | Some row \<Rightarrow> length row)"

text \<open>
  Only the state that \<open>drawSpectrogram\<close> changes is modelled: the decibel range, computed
  once per loaded spectrogram, and the redraw flag. What it paints is output; the image
  of the spectrogram itself is \<open>renderSpectrogramToCache\<close> below, which it calls with
  \<open>numFrames = data.length\<close> and the same \<open>numBins\<close>.
\<close>

definition drawSpectrogram :: "app \<Rightarrow> app" where
  "drawSpectrogram st =
     (if \<not> ctx st \<or> canvas st = None then st
      else case spectrogramData st of
        None \<Rightarrow> st
      | Some sd \<Rightarrow>
          (let dat = data sd in
           if length dat = 0 then st
           else
             let numFrames = length dat;
                 numBins = numBinsOf dat
             in if numBins = 0 then st
                else
                  let st1 =
                        (if cachedMinDb st = 0 \<and> cachedMaxDb st = 0 then
                           (case scanFrames dat numFrames numBins 0 (None, None) of
                              (Some minDb, Some maxDb) \<Rightarrow>
                                st\<lparr>cachedMinDb := minDb, cachedMaxDb := maxDb\<rparr>
                            | _ \<Rightarrow> st)
                         else st)
                  in st1\<lparr>spectrogramNeedsRedraw := False\<rparr>))"

text \<open>The source node, the animation frame and the level meter are not part of the state.\<close>

definition stopAudio :: "app \<Rightarrow> app" where
  "stopAudio st =
     (let st1 = st\<lparr>isPlaying := False, currentTime := 0, pausedAt := 0\<rparr>
      in if spectrogramData st1 \<noteq> None then drawSpectrogram st1 else st1)"

section \<open>createAudioBuffer\<close>

text \<open>
  A \<open>Float32Array\<close> cell holds a number or \<open>NaN\<close> (\<open>None\<close>), which is what storing
  \<open>undefined\<close> leaves there; a write past the end of a typed array is ignored.
\<close>

function fillChannel :: "real list \<Rightarrow> nat \<Rightarrow> nat \<Rightarrow> nat \<Rightarrow> nat \<Rightarrow> real option list
    \<Rightarrow> real option list" where
  "fillChannel dat chans numSamples ch i channelData =
     (if i < numSamples then
        fillChannel dat chans numSamples ch (i + 1)
          (channelData[i := js_index dat (i * chans + ch)])
      else channelData)"
  by pat_completeness auto
termination
  by (relation "measure (\<lambda>(dat, chans, numSamples, ch, i, channelData). numSamples - i)") auto

text \<open>\<open>getChannelData(ch)\<close> throws when the buffer has no channel \<open>ch\<close>.\<close>

function fillChannels :: "real list \<Rightarrow> nat \<Rightarrow> nat \<Rightarrow> nat \<Rightarrow> real option list list
    \<Rightarrow> real option list list \<times> string option" where
  "fillChannels dat chans numSamples ch buf =
     (if ch < chans then
        (case js_index buf ch of
           None \<Rightarrow> (buf, Some ''IndexSizeError'')
         | Some channelData \<Rightarrow>
             fillChannels dat chans numSamples (ch + 1)
               (buf[ch := fillChannel dat chans numSamples ch 0 channelData]))
      else (buf, None))"
  by pat_completeness auto
termination
  by (relation "measure (\<lambda>(dat, chans, numSamples, ch, buf). chans - ch)") auto

declare fillChannel.simps [simp del] fillChannels.simps [simp del]

text \<open>
  The audio graph built first (filters, gains, compressors) is not part of the state.
  With \<open>channels = 0\<close> the quotient is not finite and reaches \<open>createBuffer\<close> as 0.
  The result pairs the new state with the exception thrown, if any.
\<close>

definition createAudioBuffer :: "env \<Rightarrow> AudioSamples \<Rightarrow> app \<Rightarrow> app \<times> string option" where
  "createAudioBuffer e s st =
     (let dat = samples s; chans = AudioSamples.channels s;
          numSamples = (if chans = 0 then 0 else length dat div chans)
      in case createBuffer e chans numSamples (AudioSamples.sample_rate s) of
           Inl err \<Rightarrow> (st, Some err)
         | Inr buf \<Rightarrow>
             (let (buf', thrown) = fillChannels dat chans numSamples 0 buf
              in (st\<lparr>audioBuffer := Some buf'\<rparr>, thrown)))"

section \<open>renderSpectrogramToCache: the pixels of the cached image\<close>

text \<open>
  \<open>n << 2\<close> works on 32-bit two's complement integers. A store into a typed array at
  a negative index or past the end is ignored; a \<open>Uint8ClampedArray\<close> stores
  \<open>undefined\<close> as 0 and clamps numbers to 255.
\<close>

definition shl2 :: "nat \<Rightarrow> int" where
  "shl2 n = (let m = (int n * 4) mod 2 ^ 32 in if m < 2 ^ 31 then m else m - 2 ^ 32)"

definition to_uint8_clamped :: "nat option \<Rightarrow> nat" where
  "to_uint8_clamped v = (case v of None \<Rightarrow> 0 | Some n \<Rightarrow> min 255 n)"

definition put :: "nat list \<Rightarrow> int \<Rightarrow> nat option \<Rightarrow> nat list" where
  "put pixels i v =
     (if 0 \<le> i \<and> nat i < length pixels then pixels[nat i := to_uint8_clamped v]
      else pixels)"

definition dbRangeInv :: "app \<Rightarrow> real" where
  "dbRangeInv st =
     (let dbRange = cachedMaxDb st - cachedMinDb st in if dbRange > 0 then 255 / dbRange else 0)"

text \<open>
  \<open>lutIdx\<close> is \<open>NaN\<close> (\<open>None\<close>) when \<open>val\<close> is \<open>undefined\<close>, and the table read at \<open>NaN\<close>
  is \<open>undefined\<close>; every comparison with \<open>undefined\<close> is false.
\<close>

definition lutIdx :: "app \<Rightarrow> real option \<Rightarrow> nat option" where
  "lutIdx st val =
     (case val of
        None \<Rightarrow> None
      | Some v \<Rightarrow> Some (nat (max 0 (min 255 \<lfloor>(v - cachedMinDb st) * dbRangeInv st\<rfloor>)) * 3))"

definition lutEntry :: "app \<Rightarrow> nat list \<Rightarrow> nat list \<Rightarrow> real option \<Rightarrow> nat \<Rightarrow> nat option" where
  "lutEntry st viridis dimmed val k =
     (let inRange = (case val of
                       None \<Rightarrow> False
                     | Some v \<Rightarrow> dynamicsLow st \<le> v \<and> v \<le> dynamicsHigh st);
          lut = (if inRange then viridis else dimmed)
      in case lutIdx st val of
           None \<Rightarrow> None
         | Some l \<Rightarrow> js_index lut (l + k))"

text \<open>The four bytes a cell of value \<open>val\<close> leaves in its pixel: red, green, blue, alpha.\<close>

definition painted_byte :: "app \<Rightarrow> nat list \<Rightarrow> nat list \<Rightarrow> real option \<Rightarrow> nat \<Rightarrow> nat" where
  "painted_byte st viridis dimmed val k =
     (if k = 3 then 255 else to_uint8_clamped (lutEntry st viridis dimmed val k))"

definition paintCell :: "app \<Rightarrow> nat list \<Rightarrow> nat list \<Rightarrow> nat \<Rightarrow> nat \<Rightarrow> real list
    \<Rightarrow> nat \<Rightarrow> nat \<Rightarrow> nat list \<Rightarrow> nat list" where
  "paintCell st viridis dimmed numFrames numBins frame x y pixels =
     (let val = js_index frame y;
          flippedY = numBins - 1 - y;
          idx = shl2 (flippedY * numFrames + x);
          p0 = put pixels idx (lutEntry st viridis dimmed val 0);
          p1 = put p0 (idx + 1) (lutEntry st viridis dimmed val 1);
          p2 = put p1 (idx + 2) (lutEntry st viridis dimmed val 2)
      in put p2 (idx + 3) (Some 255))"

function paintFrame :: "app \<Rightarrow> nat list \<Rightarrow> nat list \<Rightarrow> nat \<Rightarrow> nat \<Rightarrow> real list
    \<Rightarrow> nat \<Rightarrow> nat \<Rightarrow> nat list \<Rightarrow> nat list" where
  "paintFrame st viridis dimmed numFrames numBins frame x y pixels =
     (if y < numBins then
        paintFrame st viridis dimmed numFrames numBins frame x (y + 1)
          (paintCell st viridis dimmed numFrames numBins frame x y pixels)
      else pixels)"
  by pat_completeness auto
termination
  by (relation "measure (\<lambda>(st, viridis, dimmed, numFrames, numBins, frame, x, y, pixels).
        numBins - y)") auto

text \<open>\<open>data[x]\<close> past the end of the matrix is \<open>undefined\<close>, and reading its cell throws.\<close>

function paintFrames :: "app \<Rightarrow> nat list \<Rightarrow> nat list \<Rightarrow> real list list \<Rightarrow> nat \<Rightarrow> nat
    \<Rightarrow> nat \<Rightarrow> nat list \<Rightarrow> string + nat list" where
  "paintFrames st viridis dimmed dat numFrames numBins x pixels =
     (if x < numFrames then
        (case js_index dat x of
           None \<Rightarrow> if 0 < numBins then Inl ''TypeError''
                   else paintFrames st viridis dimmed dat numFrames numBins (x + 1) pixels
         | Some frame \<Rightarrow>
             paintFrames st viridis dimmed dat numFrames numBins (x + 1)
               (paintFrame st viridis dimmed numFrames numBins frame x 0 pixels))
      else Inr pixels)"
  by pat_completeness auto
termination
  by (relation "measure (\<lambda>(st, viridis, dimmed, dat, numFrames, numBins, x, pixels).
        numFrames - x)") auto

declare paintFrame.simps [simp del] paintFrames.simps [simp del]

text \<open>
  The function returns early (\<open>Inr None\<close>) without its colour tables; the off-screen canvas
  and its context are taken as available. \<open>createImageData\<close> gives \<open>numFrames * numBins\<close>
  transparent black pixels of four bytes; the result is what is handed to \<open>putImageData\<close>.
\<close>

definition renderSpectrogramToCache :: "app \<Rightarrow> real list list \<Rightarrow> nat \<Rightarrow> nat
    \<Rightarrow> string + nat list option" where
  "renderSpectrogramToCache st dat numFrames numBins =
     (case (viridisLUT st, dimmedLUT st) of
        (Some viridis, Some dimmed) \<Rightarrow>
          (let pixels = replicate (numFrames * numBins * 4) 0
           in case paintFrames st viridis dimmed dat numFrames numBins 0 pixels of
                Inl err \<Rightarrow> Inl err
              | Inr painted \<Rightarrow> Inr (Some painted))
      | _ \<Rightarrow> Inr None)"

section \<open>loadAudio\<close>

definition audio_open_options :: open_options where
  "audio_open_options =
     \<lparr>multiple = False,
      open_options.filters =
        [\<lparr>name = ''Audio'', extensions = [''wav'', ''mp3'', ''flac'', ''ogg'', ''m4a'']\<rparr>]\<rparr>"

text \<open>The \<open>catch\<close> block of \<open>loadAudio\<close>.\<close>

definition load_failed :: "string \<Rightarrow> app \<Rightarrow> app" where
  "load_failed e st = st\<lparr>error := e, loading := False\<rparr>"

text \<open>
  The function returns the new state and the dialogs and commands it issued, in order.
  A selection that is \<open>null\<close> or the empty string is falsy and ends the function.
\<close>

definition loadAudio :: "env \<Rightarrow> app \<Rightarrow> app \<times> effect list" where
  "loadAudio e st =
     (let t0 = [OpenDialog audio_open_options] in
      case open_dialog e audio_open_options of
        Inl err \<Rightarrow> (load_failed err st, t0)
      | Inr None \<Rightarrow> (st, t0)
      | Inr (Some selected) \<Rightarrow>
         (if selected = [] then (st, t0)
          else
            let st1 = st\<lparr>filePath := selected, loading := True,
                         loadingStage := ''Opening file...'', error := []\<rparr>;
                st2 = (stopAudio st1)\<lparr>loadingStage := ''Decoding audio...''\<rparr>;
                t1 = t0 @ [Invoke (Load_audio (filePath st2))]
            in (case invoke_load_audio e (filePath st2) of
                  Inl err \<Rightarrow> (load_failed err st2, t1)
                | Inr info \<Rightarrow>
                   (let st3 = st2\<lparr>audioInfo := Some info,
                                  loadingStage := ''Computing spectrogram...'',
                                  cachedMinDb := 0, cachedMaxDb := 0,
                                  spectrogramNeedsRedraw := True\<rparr>;
                        t2 = t1 @ [Invoke (Compute_spectrogram (maxFreq st3))]
                    in (case invoke_compute_spectrogram e (maxFreq st3) of
                          Inl err \<Rightarrow> (load_failed err st3, t2)
                        | Inr sd \<Rightarrow>
                           (let st4 = st3\<lparr>spectrogramData := Some sd,
                                          loadingStage := ''Running forensic analysis...''\<rparr>;
                                t3 = t2 @ [Invoke Analyze_forensics]
                            in (case invoke_analyze_forensics e of
                                  Inl err \<Rightarrow> (load_failed err st4, t3)
                                | Inr fd \<Rightarrow>
                                   (let st5 = st4\<lparr>forensicData := Some fd,
                                                  loadingStage := ''Preparing playback...''\<rparr>;
                                        t4 = t3 @ [Invoke Get_audio_samples]
                                    in (case invoke_get_audio_samples e of
                                          Inl err \<Rightarrow> (load_failed err st5, t4)
                                        | Inr s \<Rightarrow>
                                           (case createAudioBuffer e s st5 of
                                              (st6, Some bufferErr) \<Rightarrow>
                                                (load_failed bufferErr st6, t4)
                                            | (st6, None) \<Rightarrow>
                                               (let st7 = drawSpectrogram st6
                                                in (st7\<lparr>dynamicsLow := cachedMinDb st7,
                                                         dynamicsHigh := cachedMaxDb st7,
                                                         loading := False\<rparr>, t4))))))))))))"

section \<open>exportAudio\<close>

text \<open>
  \<open>filePath.split('/').pop()?.replace(/\.[^.]+$/, '') || 'export'\<close>: the part after the
  last slash, without its last extension when a dot is followed by at least one character,
  and \<open>export\<close> when that leaves nothing.
\<close>

definition last_segment :: "string \<Rightarrow> string" where
  "last_segment p = rev (takeWhile (\<lambda>c. c \<noteq> CHR ''/'') (rev p))"

definition strip_extension :: "string \<Rightarrow> string" where
  "strip_extension s =
     (let ext = takeWhile (\<lambda>c. c \<noteq> CHR ''.'') (rev s)
      in if ext \<noteq> [] \<and> length ext < length s then take (length s - length ext - 1) s else s)"

definition defaultName :: "string \<Rightarrow> string" where
  "defaultName p = (let n = strip_extension (last_segment p) in if n = [] then ''export'' else n)"

definition wav_save_options :: "string \<Rightarrow> save_options" where
  "wav_save_options p =
     \<lparr>save_options.filters = [\<lparr>name = ''WAV Audio'', extensions = [''wav'']\<rparr>],
      defaultPath = defaultName p @ ''_selection.wav''\<rparr>"

text \<open>
  The selection ends are doubles: \<open>Math.min\<close> and \<open>Math.max\<close> order them, the difference
  is rounded, and it is compared with the double that the literal \<open>0.01\<close> denotes.
\<close>

definition exportAudio :: "env \<Rightarrow> app \<Rightarrow> app \<times> effect list" where
  "exportAudio e st =
     (case (audioInfo st, selectionStart st, selectionEnd st) of
        (Some info, Some s0, Some s1) \<Rightarrow>
          (let startTime = js_min s0 s1; endTime = js_max s0 s1 in
           if js_lt (js_minus endTime startTime) (binary64 (1 / 100)) then
             (st\<lparr>error := ''Selection too short to export''\<rparr>, [])
           else
             let opts = wav_save_options (filePath st); t0 = [SaveDialog opts]
             in (case save_dialog e opts of
                   Inl err \<Rightarrow> (st\<lparr>error := err, exportLoading := False\<rparr>, t0)
                 | Inr None \<Rightarrow> (st, t0)
                 | Inr (Some outputPath) \<Rightarrow>
                    (if outputPath = [] then (st, t0)
                     else
                       let st1 = st\<lparr>exportLoading := True, error := []\<rparr>;
                           t1 = t0 @ [Invoke (Export_audio outputPath startTime endTime)]
                       in (case invoke_export_audio e outputPath startTime endTime of
                             Some err \<Rightarrow> (st1\<lparr>error := err, exportLoading := False\<rparr>, t1)
                           | None \<Rightarrow> (st1\<lparr>exportLoading := False\<rparr>, t1)))))
      | _ \<Rightarrow>
          (st\<lparr>error := ''Please select a time range to export (Shift+click and drag)''\<rparr>, []))"

section \<open>Dragging the filter lines\<close>

text \<open>
  The mouse handlers compute in doubles throughout. The canvas sizes are integers; the
  coordinates of the event and of the bounding rectangle, \<open>maxFreq\<close> and the duration of
  the track are finite. A canvas that is 30 pixels high or 60 pixels wide makes a divisor
  zero, and the handler goes on with the infinity or \<open>NaN\<close> of the division.
\<close>

definition yToFrequency :: "app \<Rightarrow> jsnum \<Rightarrow> jsnum" where
  "yToFrequency st y =
     (case canvas st of
        None \<Rightarrow> Fin 0
      | Some cv \<Rightarrow>
          (let freqBarHeight = Fin 30;
               spectrogramHeight = js_minus (Fin (real (height cv))) freqBarHeight;
               normalizedY = js_divide (js_minus y freqBarHeight) spectrogramHeight
           in js_times (Fin (maxFreq st)) (js_minus (Fin 1) normalizedY)))"

definition getFilterYPositions :: "app \<Rightarrow> jsnum \<times> jsnum" where
  "getFilterYPositions st =
     (case canvas st of
        None \<Rightarrow> (Fin 0, Fin 0)
      | Some cv \<Rightarrow>
          (let freqBarHeight = Fin 30;
               spectrogramHeight = js_minus (Fin (real (height cv))) freqBarHeight;
               highPassY = js_plus freqBarHeight
                 (js_times spectrogramHeight
                    (js_minus (Fin 1) (js_divide (highPassFreq st) (Fin (maxFreq st)))));
               lowPassY = js_plus freqBarHeight
                 (js_times spectrogramHeight
                    (js_minus (Fin 1) (js_divide (lowPassFreq st) (Fin (maxFreq st)))))
           in (highPassY, lowPassY)))"

definition handleCanvasMouseMove :: "mouse_event \<Rightarrow> app \<Rightarrow> app" where
  "handleCanvasMouseMove event st =
     (case (canvas st, spectrogramData st, audioInfo st) of
        (Some cv, Some sd, Some info) \<Rightarrow>
          (let y = js_minus (Fin (clientY event)) (Fin (rect_top cv));
               x = js_minus (Fin (clientX event)) (Fin (rect_left cv));
               legendWidth = Fin 60;
               spectrogramWidth = js_minus (Fin (real (width cv))) legendWidth
           in if isSelecting st \<and> selectionStart st \<noteq> None then
                (let dragTime =
                       js_max (Fin 0)
                         (js_min (Fin (duration info))
                            (js_times (js_divide x spectrogramWidth) (Fin (duration info))))
                 in drawSpectrogram (st\<lparr>selectionEnd := Some dragTime\<rparr>))
              else if draggingFilter st \<noteq> None then
                (let newFreq = js_max (Fin 0) (js_min (Fin (maxFreq st)) (yToFrequency st y))
                 in if draggingFilter st = Some highpass then
                      (let st1 = st\<lparr>highPassFreq :=
                                      js_min newFreq (js_minus (lowPassFreq st) (Fin 100))\<rparr>;
                           st2 = st1\<lparr>highPassFreq := js_max (Fin 0) (highPassFreq st1)\<rparr>
                       in drawSpectrogram st2)
                    else
                      (let st1 = st\<lparr>lowPassFreq :=
                                      js_max newFreq (js_plus (highPassFreq st) (Fin 100))\<rparr>;
                           st2 = st1\<lparr>lowPassFreq := js_min (Fin (maxFreq st1)) (lowPassFreq st1)\<rparr>
                       in drawSpectrogram st2))
              else
                (let highPassY = fst (getFilterYPositions st);
                     lowPassY = snd (getFilterYPositions st);
                     hitThreshold = Fin 10
                 in if js_lt (js_abs (js_minus y highPassY)) hitThreshold then
                      st\<lparr>filterHover := Some highpass\<rparr>
                    else if js_lt (js_abs (js_minus y lowPassY)) hitThreshold then
                      st\<lparr>filterHover := Some lowpass\<rparr>
                    else st\<lparr>filterHover := None\<rparr>))
      | _ \<Rightarrow> st)"

section \<open>makeSaturationCurve\<close>

definition curve_samples :: nat where
  "curve_samples = 44100"

function saturation_fill :: "real \<Rightarrow> nat \<Rightarrow> real list \<Rightarrow> real list option" where
  "saturation_fill k i curve =
     (if i < curve_samples then
        (let x = (real i * 2) / real curve_samples - 1 in
         case js_div ((1 + k) * x) (1 + k * \<bar>x\<bar>) of
           None \<Rightarrow> None
         | Some v \<Rightarrow> saturation_fill k (i + 1) (curve[i := v]))
      else Some curve)"
  by pat_completeness auto
termination
  by (relation "measure (\<lambda>(k, i, curve). curve_samples - i)") auto

declare saturation_fill.simps [simp del]

definition makeSaturationCurve :: "real \<Rightarrow> real list option" where
  "makeSaturationCurve amount =
     (let k = amount * 50 in saturation_fill k 0 (replicate curve_samples 0))"

section \<open>The analysis engine\<close>

text \<open>
  The engine behind the commands is not among the sources. The definitions of this
  section follow the specification. Samples of a valid track are finite numbers in
  \<open>[-1, 1]\<close> and are modelled as reals, as are all decibel values.
\<close>

text \<open>Modelled from the spec: the error kinds of section 7.\<close>

datatype engine_error =
    FileNotFound | UnsupportedFormat | MalformedInput | InvalidParameter | EmptyRange
  | NoTrack | OutOfMemory | IoError | PermissionDenied

text \<open>
  Modelled from the spec: the Sample Store, a single slot holding the decoded track
  (its \<open>TrackInfo\<close>, which has the fields of \<open>AudioInfo\<close>, and its interleaved
  \<open>SampleBuffer\<close>) or nothing.
\<close>

record track =
  info :: AudioInfo
  buffer :: "real list"

type_synonym store = "track option"

subsection \<open>Exporter\<close>

text \<open>
  Modelled from the spec: the exported waveform file, 16-bit PCM with the sample rate
  and channel count of the source and the interleaved samples.
\<close>

record wav_file =
  wav_sample_rate :: nat
  wav_channels :: nat
  pcm :: "int list"

text \<open>Modelled from the spec: clipping of a time to \<open>[0, duration]\<close>.\<close>

definition clip_time :: "real \<Rightarrow> real \<Rightarrow> real" where
  "clip_time d t = max 0 (min d t)"

text \<open>Modelled from the spec: the sample conversion \<open>round(clamp(x, -1, +1) * 32767)\<close>.\<close>

definition to_pcm16 :: "real \<Rightarrow> int" where
  "to_pcm16 x = round (max (- 1) (min 1 x) * 32767)"

text \<open>
  Modelled from the spec: \<open>export_audio\<close> (the Exporter of section 4.5). The range is
  clipped to \<open>[0, duration]\<close>; an empty range fails with \<open>EmptyRange\<close>; the frames from
  \<open>floor(start_s * sample_rate)\<close> up to \<open>floor(end_s * sample_rate)\<close> are converted to
  16-bit PCM; the file appears under \<open>out_path\<close> only when the write succeeds.
  \<open>write_fault\<close> is the answer of the file system (\<open>IoError\<close>, \<open>PermissionDenied\<close>).
\<close>

definition export_audio :: "(string \<Rightarrow> engine_error option) \<Rightarrow> store \<Rightarrow> (string \<rightharpoonup> wav_file)
    \<Rightarrow> string \<Rightarrow> real \<Rightarrow> real \<Rightarrow> (string \<rightharpoonup> wav_file) \<times> (engine_error + unit)" where
  "export_audio write_fault st files out_path start_s end_s =
     (case st of
        None \<Rightarrow> (files, Inl NoTrack)
      | Some tr \<Rightarrow>
          (let d = duration (info tr);
               s = clip_time d start_s;
               e = clip_time d end_s
           in if e \<le> s then (files, Inl EmptyRange)
              else
                let sr = AudioInfo.sample_rate (info tr);
                    ch = AudioInfo.channels (info tr);
                    first = nat \<lfloor>s * real sr\<rfloor>;
                    last = nat \<lfloor>e * real sr\<rfloor>;
                    range = take ((last - first) * ch) (drop (first * ch) (buffer tr))
                in (case write_fault out_path of
                      Some err \<Rightarrow> (files, Inl err)
                    | None \<Rightarrow>
                        (files(out_path \<mapsto>
                           \<lparr>wav_sample_rate = sr, wav_channels = ch, pcm = map to_pcm16 range\<rparr>),
                         Inr ()))))"

subsection \<open>Spectrogram Engine\<close>

text \<open>Modelled from the spec: the window size \<open>N = 2048\<close> and the hop size \<open>H = N/4\<close>.\<close>

definition window_size :: nat where
  "window_size = 2048"

definition hop_size :: nat where
  "hop_size = window_size div 4"

text \<open>Modelled from the spec: the Hann window \<open>w[n] = 0.5 * (1 - cos(2 pi n / (N - 1)))\<close>.\<close>

definition hann :: "nat \<Rightarrow> real" where
  "hann n = 0.5 * (1 - cos (2 * pi * real n / real (window_size - 1)))"

text \<open>
  Modelled from the spec: \<open>mono_mix\<close>, the samples themselves for one channel and the
  arithmetic mean of the channels of each frame otherwise.
\<close>

definition mono_mix :: "track \<Rightarrow> real list" where
  "mono_mix tr =
     (let ch = AudioInfo.channels (info tr) in
      if ch = 1 then buffer tr
      else map (\<lambda>i. (\<Sum>c < ch. buffer tr ! (i * ch + c)) / real ch)
             [0 ..< length (buffer tr) div ch])"

text \<open>
  Modelled from the spec: frames \<open>m = 0 \<dots> floor((L - N) / H)\<close>, none for a signal
  shorter than \<open>N\<close>; frame \<open>m\<close> starts at sample \<open>m * H\<close> and is multiplied by the window.
\<close>

definition frame_count :: "nat \<Rightarrow> nat" where
  "frame_count L = (if L < window_size then 0 else (L - window_size) div hop_size + 1)"

definition windowed :: "real list \<Rightarrow> nat \<Rightarrow> nat \<Rightarrow> real" where
  "windowed x m n = x ! (m * hop_size + n) * hann n"

text \<open>Modelled from the spec: bin \<open>k\<close> of the DFT of length \<open>N\<close> of a real frame.\<close>

definition dft_bin :: "(nat \<Rightarrow> real) \<Rightarrow> nat \<Rightarrow> complex" where
  "dft_bin v k =
     (\<Sum>n < window_size. of_real (v n) * cis (- (2 * pi * real k * real n / real window_size)))"

text \<open>
  Modelled from the spec: the magnitude in decibels, \<open>20 * log10(max(|X[k]|, 1e-10))\<close>,
  and the floor of \<open>-200\<close> dB applied before return.
\<close>

definition magnitude_db :: "real \<Rightarrow> real" where
  "magnitude_db m = 20 * log 10 (max m (1 / 10 ^ 10))"

definition floor_db :: real where
  "floor_db = - 200"

text \<open>
  Modelled from the spec: of the first \<open>N/2 + 1\<close> bins, those with
  \<open>k * sample_rate / N \<le> max_freq\<close> are kept.
\<close>

definition kept_bins :: "nat \<Rightarrow> real \<Rightarrow> nat list" where
  "kept_bins sr max_f =
     filter (\<lambda>k. real k * real sr / real window_size \<le> max_f) [0 ..< window_size div 2 + 1]"

text \<open>
  Modelled from the spec: a row of the matrix (one frame), and the result record of
  \<open>compute_spectrogram\<close> with the frame start times in seconds.
\<close>

definition frame_row :: "real list \<Rightarrow> nat \<Rightarrow> real \<Rightarrow> nat \<Rightarrow> real list" where
  "frame_row x sr max_f m =
     map (\<lambda>k. max floor_db (magnitude_db (cmod (dft_bin (windowed x m) k)))) (kept_bins sr max_f)"

definition stft :: "real list \<Rightarrow> nat \<Rightarrow> real \<Rightarrow> SpectrogramData" where
  "stft x sr max_f =
     \<lparr>data = map (frame_row x sr max_f) [0 ..< frame_count (length x)],
      times = map (\<lambda>m. real (m * hop_size) / real sr) [0 ..< frame_count (length x)],
      max_freq = max_f\<rparr>"

text \<open>
  Modelled from the spec: the two behaviours it gives for \<open>max_freq\<close> above the Nyquist
  rate. Its failure list rejects the value with \<open>InvalidParameter\<close>; its edge cases and
  its round-trip laws clamp it silently. The model takes the choice as a parameter.
\<close>

datatype nyquist_policy = Reject_above_Nyquist | Clamp_to_Nyquist

text \<open>Modelled from the spec: the Nyquist rate \<open>sample_rate / 2\<close>.\<close>

definition nyquist :: "track \<Rightarrow> real" where
  "nyquist tr = real (AudioInfo.sample_rate (info tr)) / 2"

text \<open>
  Modelled from the spec: \<open>compute_spectrogram\<close> (the Spectrogram Engine of section 4.3):
  \<open>NoTrack\<close> without a track, \<open>InvalidParameter\<close> for \<open>max_freq \<le> 0\<close>, and otherwise the
  matrix of the mono mix.
\<close>

definition compute_spectrogram :: "nyquist_policy \<Rightarrow> store \<Rightarrow> real
    \<Rightarrow> engine_error + SpectrogramData" where
  "compute_spectrogram policy st max_f =
     (case st of
        None \<Rightarrow> Inl NoTrack
      | Some tr \<Rightarrow>
          if max_f \<le> 0 then Inl InvalidParameter
          else if nyquist tr < max_f then
            (case policy of
               Reject_above_Nyquist \<Rightarrow> Inl InvalidParameter
             | Clamp_to_Nyquist \<Rightarrow>
                 Inr (stft (mono_mix tr) (AudioInfo.sample_rate (info tr)) (nyquist tr)))
          else Inr (stft (mono_mix tr) (AudioInfo.sample_rate (info tr)) max_f))"

section \<open>Result types of the commands\<close>

text \<open>
  The interface each \<open>invoke<T>(command)\<close> call of the UI names for its result;
  \<open>export_audio\<close> is invoked without one.
\<close>

definition ui_result_interface :: "string \<Rightarrow> interface option" where
  "ui_result_interface command =
     (if command = ''load_audio'' then Some AudioInfo_interface
      else if command = ''compute_spectrogram'' then Some SpectrogramData_interface
      else if command = ''analyze_forensics'' then Some ForensicData_interface
      else if command = ''get_audio_samples'' then Some AudioSamples_interface
      else None)"

text \<open>
  The command table of the specification (section 6), with the attributes that its data
  model (section 3) lists for \<open>TrackInfo\<close> and \<open>Forensics\<close>: the field names of each result.
\<close>

definition command_table_fields :: "string \<Rightarrow> string list option" where
  "command_table_fields command =
     (if command = ''load_audio'' then Some [''duration'', ''sample_rate'', ''channels'']
      else if command = ''compute_spectrogram'' then Some [''data'', ''times'', ''max_freq'']
      else if command = ''analyze_forensics'' then
        Some [''enf_present'', ''enf_strength_db'', ''grid_freq'', ''splice_times'', ''snr_db'',
              ''dynamic_range_db'', ''has_clipping'', ''clipped_count'']
      else if command = ''get_audio_samples'' then Some [''samples'', ''sample_rate'', ''channels'']
      else if command = ''export_audio'' then Some []
      else None)"

definition field_names :: "interface \<Rightarrow> string list" where
  "field_names i = map fst i"

section \<open>The separation of the two filter bands\<close>

text \<open>
  \<open>0 \<le> highPassFreq \<le> lowPassFreq - 100\<close> and \<open>lowPassFreq \<le> maxFreq\<close>, read on the values
  of the two frequencies; it does not hold when one of them is an infinity or \<open>NaN\<close>.
\<close>

definition band_separation :: "app \<Rightarrow> bool" where
  "band_separation st =
     (case (highPassFreq st, lowPassFreq st) of
        (Fin h, Fin l) \<Rightarrow> 0 \<le> h \<and> h \<le> l - 100 \<and> l \<le> maxFreq st
      | _ \<Rightarrow> False)"

text \<open>The value the loop of \<open>makeSaturationCurve\<close> stores at index \<open>i\<close>.\<close>

definition shape :: "real \<Rightarrow> nat \<Rightarrow> real" where
  "shape k i = (let x = (real i * 2) / real curve_samples - 1 in ((1 + k) * x) / (1 + k * \<bar>x\<bar>))"

section \<open>Concrete inputs\<close>

text \<open>
  A two-channel track of seven samples, the answers of the collaborators for it, and
  states of the component after loading it.
\<close>

definition demo_info :: AudioInfo where
  "demo_info = \<lparr>duration = 2, AudioInfo.sample_rate = 44100, AudioInfo.channels = 2\<rparr>"

definition demo_spectrogram :: SpectrogramData where
  "demo_spectrogram = \<lparr>data = [[- 50, - 20], [- 30, - 60]], times = [0, 512 / 44100], max_freq = 8000\<rparr>"

definition demo_forensics :: ForensicData where
  "demo_forensics =
     \<lparr>enf_present = False, enf_strength_db = 0, grid_freq = 50, splice_times = [],
      snr_db = 0, dynamic_range_db = 0, has_clipping = False, clipped_count = 0\<rparr>"

definition demo_samples :: AudioSamples where
  "demo_samples = \<lparr>samples = [1, 2, 3, 4, 5, 6, 7], sample_rate = 44100, channels = 2\<rparr>"

definition demo_env :: env where
  "demo_env =
     \<lparr>open_dialog = (\<lambda>opts. Inr (Some ''/tmp/notes.txt'')),
      save_dialog = (\<lambda>opts. Inr (Some ''/tmp/out.wav'')),
      invoke_load_audio = (\<lambda>p. Inr demo_info),
      invoke_compute_spectrogram = (\<lambda>max_f. Inr demo_spectrogram),
      invoke_analyze_forensics = Inr demo_forensics,
      invoke_get_audio_samples = Inr demo_samples,
      invoke_export_audio = (\<lambda>p s t. None),
      createBuffer = (\<lambda>c n sr. Inr (replicate c (replicate n (Some 0))))\<rparr>"

definition demo_loaded :: app where
  "demo_loaded =
     initial_app\<lparr>canvas := Some \<lparr>width = 860, height = 430, rect_left = 0, rect_top = 0\<rparr>,
                 ctx := True, audioInfo := Some demo_info,
                 spectrogramData := Some demo_spectrogram, filePath := ''/music/take.one.flac'',
                 viridisLUT := Some (replicate 768 200), dimmedLUT := Some (replicate 768 30)\<rparr>"

definition demo_track :: track where
  "demo_track =
     \<lparr>info = \<lparr>duration = 4096 / 44100, AudioInfo.sample_rate = 44100, AudioInfo.channels = 1\<rparr>,
      buffer = replicate 4096 0\<rparr>"

definition demo_selected :: app where
  "demo_selected =
     demo_loaded\<lparr>selectionStart := Some (Fin (5 / 2)), selectionEnd := Some (Fin 1)\<rparr>"

text \<open>
  A selection from \<open>2^-62\<close> s to the double \<open>0.01\<close>, which is \<open>5764607523034235 / 2^59\<close>, and
  a selection whose ends are \<open>NaN\<close>.
\<close>

definition demo_sliver :: app where
  "demo_sliver =
     demo_loaded\<lparr>selectionStart := Some (Fin (1 / 2 ^ 62)),
                 selectionEnd := Some (Fin (5764607523034235 / 2 ^ 59))\<rparr>"

definition demo_nan :: app where
  "demo_nan = demo_loaded\<lparr>selectionStart := Some NaN, selectionEnd := Some NaN\<rparr>"

text \<open>
  The loaded track on a canvas that is 30 pixels high, which is the height of the
  frequency bar, with the high-pass line being dragged; and a mouse move to the lower
  edge of that canvas.
\<close>

definition demo_flat :: app where
  "demo_flat =
     demo_loaded\<lparr>canvas := Some \<lparr>width = 860, height = 30, rect_left = 0, rect_top = 0\<rparr>,
                 draggingFilter := Some highpass\<rparr>"

definition demo_edge :: mouse_event where
  "demo_edge = \<lparr>clientX = 100, clientY = 30, shiftKey = False\<rparr>"

chapter \<open>Properties\<close>

section \<open>Rounding to a double\<close>

lemma pow2_pos: "0 < pow2 k"
  by (simp add: pow2_def)

lemma pow2_powr: "pow2 k = 2 powr (of_int k)"
  unfolding pow2_def by (subst powr_int) simp_all

lemma round_half_even_int: "round_half_even (of_int m) = m"
  by (simp add: round_half_even_def)

lemma binary64_rounds:
  assumes "pow2 e \<le> \<bar>x\<bar>" "\<bar>x\<bar> < pow2 (e + 1)" "- 1022 \<le> e"
    and "round_half_even (x / pow2 (e - 52)) = m"
    and "\<bar>of_int m * pow2 (e - 52)\<bar> < pow2 1024"
  shows "binary64 x = Fin (of_int m * pow2 (e - 52))"
proof -
  have pos: "0 < \<bar>x\<bar>" using assms(1) pow2_pos [of e] by linarith
  then have x0: "x \<noteq> 0" by auto
  have "\<lfloor>log 2 \<bar>x\<bar>\<rfloor> = e"
    using pos assms(1,2) by (simp add: floor_log_eq_powr_iff pow2_powr)
  then have e: "max \<lfloor>log 2 \<bar>x\<bar>\<rfloor> (- 1022) = e" using assms(3) by simp
  show ?thesis
    using x0 assms(4,5) by (simp add: binary64_def e Let_def)
qed

lemma binary64_exact:
  assumes "pow2 e \<le> \<bar>x\<bar>" "\<bar>x\<bar> < pow2 (e + 1)" "- 1022 \<le> e" "e \<le> 1023"
    and "x / pow2 (e - 52) = of_int m"
  shows "binary64 x = Fin x"
proof -
  have r: "round_half_even (x / pow2 (e - 52)) = m"
    by (simp add: assms(5) round_half_even_int)
  have v: "of_int m * pow2 (e - 52) = x"
    using assms(5) pow2_pos [of "e - 52"] by (simp add: field_simps)
  have "(2::real) powr (of_int (e + 1)) \<le> 2 powr (of_int 1024)"
    using assms(4) by (intro powr_mono) simp_all
  then have "pow2 (e + 1) \<le> pow2 1024"
    by (simp only: pow2_powr)
  then have "\<bar>of_int m * pow2 (e - 52)\<bar> < pow2 1024"
    using assms(2) v by simp
  from binary64_rounds [OF assms(1,2,3) r this] v show ?thesis by simp
qed

lemma binary64_30: "binary64 30 = Fin 30"
  by (rule binary64_exact [where e = 4 and m = "30 * 2 ^ 48"]) (simp_all add: pow2_def)

lemma binary64_3_2: "binary64 (3 / 2) = Fin (3 / 2)"
  by (rule binary64_exact [where e = 0 and m = "3 * 2 ^ 51"]) (simp_all add: pow2_def)

text \<open>The double that the literal \<open>0.01\<close> denotes.\<close>

lemma binary64_hundredth: "binary64 (1 / 100) = Fin (5764607523034235 / 2 ^ 59)"
proof -
  have r: "round_half_even (1 / 100 / pow2 (- 7 - 52)) = 5764607523034235"
    by (simp add: round_half_even_def pow2_def Let_def)
  have "binary64 (1 / 100) = Fin (of_int 5764607523034235 * pow2 (- 7 - 52))"
    by (rule binary64_rounds [OF _ _ _ r]) (simp_all add: pow2_def)
  then show ?thesis by (simp add: pow2_def)
qed

lemma binary64_below_hundredth:
  "binary64 (5764607523034235 / 2 ^ 59 - 1 / 2 ^ 62) = Fin (5764607523034235 / 2 ^ 59)"
proof -
  have r: "round_half_even ((5764607523034235 / 2 ^ 59 - 1 / 2 ^ 62) / pow2 (- 7 - 52))
      = 5764607523034235"
    by (simp add: round_half_even_def pow2_def Let_def)
  have "binary64 (5764607523034235 / 2 ^ 59 - 1 / 2 ^ 62)
      = Fin (of_int 5764607523034235 * pow2 (- 7 - 52))"
    by (rule binary64_rounds [OF _ _ _ r]) (simp_all add: pow2_def)
  then show ?thesis by (simp add: pow2_def)
qed

lemma pow2_add: "pow2 (a + b) = pow2 a * pow2 b"
  by (simp add: pow2_powr powr_add)

lemma pow2_mono: "a \<le> b \<Longrightarrow> pow2 a \<le> pow2 b"
  by (simp add: pow2_powr)

lemma round_half_even_le:
  assumes "q \<le> of_int n"
  shows "round_half_even q \<le> n"
proof -
  define f where "f = \<lfloor>q\<rfloor>"
  have fq: "of_int f \<le> q" by (simp add: f_def)
  have fn: "f \<le> n" using floor_mono [OF assms] by (simp add: f_def)
  have up: "f + 1 \<le> n" if "1 / 2 \<le> q - of_int f"
  proof -
    have "(of_int f :: real) < of_int n" using that assms by linarith
    then show ?thesis by simp
  qed
  show ?thesis
    unfolding round_half_even_def Let_def f_def [symmetric]
    using fn up by auto
qed

lemma round_half_even_le_half:
  assumes "q \<le> of_int n + 1 / 2" "even n"
  shows "round_half_even q \<le> n"
proof -
  define f where "f = \<lfloor>q\<rfloor>"
  have fq: "of_int f \<le> q" by (simp add: f_def)
  have "q < of_int (n + 1)" using assms(1) by simp
  then have "\<lfloor>q\<rfloor> < n + 1" by (simp only: floor_less_iff)
  then have fn: "f \<le> n" by (simp add: f_def)
  show ?thesis
  proof (cases "f = n")
    case True
    then have "q - of_int f \<le> 1 / 2" using assms(1) by simp
    then show ?thesis
      unfolding round_half_even_def Let_def f_def [symmetric]
      using True assms(2) by auto
  next
    case False
    then have "f + 1 \<le> n" using fn by simp
    then show ?thesis
      unfolding round_half_even_def Let_def f_def [symmetric]
      using fn by auto
  qed
qed

lemma round_half_even_nonneg:
  assumes "0 \<le> q"
  shows "0 \<le> round_half_even q"
proof -
  have "0 \<le> \<lfloor>q\<rfloor>" using assms by simp
  then show ?thesis unfolding round_half_even_def Let_def by auto
qed

lemma binary64_below_threshold:
  assumes "x \<le> 1 / 100 - 1 / 10 ^ 18"
  shows "js_lt (binary64 x) (binary64 (1 / 100))"
proof -
  define d :: real where "d = 5764607523034235 / 2 ^ 59"
  have d_pos: "0 < d" by (simp add: d_def)
  have d_le1: "d < 1" by (simp add: d_def)
  have "pow2 0 = 1" by (simp add: pow2_def)
  then have big: "1 \<le> pow2 1024" using pow2_mono [of 0 1024] by simp
  have "x * 2 ^ 59 \<le> (1 / 100 - 1 / 10 ^ 18) * 2 ^ 59"
    using assms by (intro mult_right_mono) simp_all
  also have "\<dots> \<le> 5764607523034234 + 1 / 2" by simp
  finally have xd: "x * 2 ^ 59 \<le> 5764607523034234 + 1 / 2" .
  have goal: "js_lt (binary64 x) (Fin d)"
  proof -
    consider (zero) "x = 0" | (neg) "x < 0" | (pos) "0 < x" by linarith
    then show ?thesis
    proof cases
      case zero
      then show ?thesis using d_pos by (simp add: binary64_def)
    next
      case neg
      define e where "e = max \<lfloor>log 2 \<bar>x\<bar>\<rfloor> (- 1022)"
      define m where "m = round_half_even (x / pow2 (e - 52))"
      have "x / pow2 (e - 52) \<le> 0"
        using neg pow2_pos [of "e - 52"] by (simp add: divide_nonpos_pos)
      then have "m \<le> 0" using round_half_even_le [of "x / pow2 (e - 52)" 0] by (simp add: m_def)
      then have r: "of_int m * pow2 (e - 52) \<le> 0"
        using pow2_pos [of "e - 52"] by (simp add: mult_nonpos_nonneg)
      have b: "binary64 x =
          (if pow2 1024 \<le> \<bar>of_int m * pow2 (e - 52)\<bar> then NegInf
           else Fin (of_int m * pow2 (e - 52)))"
        using neg unfolding m_def e_def by (simp add: binary64_def Let_def)
      show ?thesis using r d_pos by (simp add: b)
    next
      case pos
      define e where "e = max \<lfloor>log 2 \<bar>x\<bar>\<rfloor> (- 1022)"
      define u where "u = pow2 (e - 52)"
      define m where "m = round_half_even (x / u)"
      have u_pos: "0 < u" by (simp add: u_def pow2_pos)
      have "pow2 (- 6) = 1 / 64" by (simp add: pow2_def)
      moreover have "x < 1 / 64" using assms by simp
      ultimately have "x < 2 powr (of_int (- 6))" by (simp only: pow2_powr)
      then have "log 2 x < of_int (- 6)" using pos by (simp add: log_less_iff)
      then have "\<lfloor>log 2 x\<rfloor> < - 6" by (simp only: floor_less_iff)
      then have e_le: "e \<le> - 7" using pos by (simp add: e_def)
      have "\<lfloor>log 2 x\<rfloor> \<le> e" using pos by (simp add: e_def)
      then have "of_int \<lfloor>log 2 x\<rfloor> + 1 \<le> (of_int (e + 1) :: real)" by simp
      moreover have "log 2 x < of_int \<lfloor>log 2 x\<rfloor> + 1" by linarith
      ultimately have "log 2 x < of_int (e + 1)" by linarith
      then have "x < 2 powr (of_int (e + 1))" using pos by (simp add: log_less_iff)
      then have x_lt: "x < pow2 (e + 1)" by (simp only: pow2_powr)
      have "0 \<le> x / u" using pos u_pos by simp
      then have m0: "0 \<le> m" unfolding m_def by (rule round_half_even_nonneg)
      have mr: "of_int m * u < d"
      proof (cases "e = - 7")
        case True
        then have u59: "u = 1 / 2 ^ 59" by (simp add: u_def pow2_def)
        have "x / u \<le> of_int 5764607523034234 + 1 / 2" using xd by (simp add: u59)
        then have "m \<le> 5764607523034234"
          unfolding m_def by (rule round_half_even_le_half) simp
        then have "(of_int m :: real) \<le> 5764607523034234" by linarith
        then have "of_int m * u \<le> 5764607523034234 * u"
          using u_pos by (intro mult_right_mono) simp_all
        then show ?thesis by (simp add: u59 d_def)
      next
        case False
        then have e8: "e + 1 \<le> - 7" using e_le by simp
        have split: "pow2 (e + 1) = u * pow2 53"
          using pow2_add [of "e - 52" 53] by (simp add: u_def add.commute)
        have p53: "pow2 53 = of_int (2 ^ 53)" by (simp add: pow2_def)
        have "x < u * of_int (2 ^ 53)" using x_lt split p53 by simp
        then have "x / u < of_int (2 ^ 53)" using u_pos by (simp add: field_simps)
        then have "x / u \<le> of_int (2 ^ 53)" by simp
        then have "m \<le> 2 ^ 53" unfolding m_def by (rule round_half_even_le)
        then have "(of_int m :: real) \<le> of_int (2 ^ 53)" by (simp only: of_int_le_iff)
        then have "of_int m * u \<le> of_int (2 ^ 53) * u"
          using u_pos by (intro mult_right_mono) simp_all
        also have "\<dots> = pow2 (e + 1)" using split p53 by simp
        also have "\<dots> \<le> pow2 (- 7)" using e8 by (rule pow2_mono)
        also have "\<dots> < d" by (simp add: pow2_def d_def)
        finally show ?thesis .
      qed
      have r0: "0 \<le> of_int m * u" using m0 u_pos by simp
      have noov: "\<not> pow2 1024 \<le> \<bar>of_int m * u\<bar>" using mr r0 d_le1 big by linarith
      have b: "binary64 x = Fin (of_int m * u)"
        using pos noov unfolding m_def u_def e_def by (simp add: binary64_def Let_def)
      show ?thesis using mr by (simp add: b)
    qed
  qed
  then show ?thesis by (simp add: binary64_hundredth d_def)
qed

section \<open>De-interleaving for playback\<close>

lemma fillChannel_spec:
  "length cd = n \<Longrightarrow>
   length (fillChannel dat c n ch i cd) = n \<and>
   (\<forall>j<n. fillChannel dat c n ch i cd ! j = (if j < i then cd ! j else js_index dat (j * c + ch)))"
proof (induction dat c n ch i cd rule: fillChannel.induct)
  case (1 dat chans numSamples ch i channelData)
  show ?case
  proof (cases "i < numSamples")
    case False
    then show ?thesis
      using "1.prems" by (simp add: fillChannel.simps [of dat chans numSamples ch i channelData])
  next
    case True
    let ?cd = "channelData[i := js_index dat (i * chans + ch)]"
    have len: "length ?cd = numSamples" using "1.prems" by simp
    note IH = "1.IH" [OF True len]
    have unfold: "fillChannel dat chans numSamples ch i channelData
        = fillChannel dat chans numSamples ch (i + 1) ?cd"
      using True by (simp add: fillChannel.simps [of dat chans numSamples ch i channelData])
    show ?thesis
    proof (intro conjI allI impI)
      show "length (fillChannel dat chans numSamples ch i channelData) = numSamples"
        using IH unfold by simp
    next
      fix j assume j: "j < numSamples"
      have "fillChannel dat chans numSamples ch (i + 1) ?cd ! j
          = (if j < i + 1 then ?cd ! j else js_index dat (j * chans + ch))"
        using IH j by blast
      then show "fillChannel dat chans numSamples ch i channelData ! j
          = (if j < i then channelData ! j else js_index dat (j * chans + ch))"
        using unfold j "1.prems" by (cases "j = i") (auto simp: less_Suc_eq)
    qed
  qed
qed

lemma fillChannels_spec:
  "chans \<le> length buf \<Longrightarrow>
   \<exists>buf'. fillChannels dat chans n ch buf = (buf', None) \<and> length buf' = length buf \<and>
     (\<forall>k<length buf. buf' ! k =
        (if ch \<le> k \<and> k < chans then fillChannel dat chans n k 0 (buf ! k) else buf ! k))"
proof (induction dat chans n ch buf rule: fillChannels.induct)
  case (1 dat chans numSamples ch buf)
  show ?case
  proof (cases "ch < chans")
    case False
    then show ?thesis
      by (auto simp add: fillChannels.simps [of dat chans numSamples ch buf])
  next
    case True
    then have idx: "js_index buf ch = Some (buf ! ch)"
      using "1.prems" by (simp add: js_index_def)
    let ?buf = "buf[ch := fillChannel dat chans numSamples ch 0 (buf ! ch)]"
    have len: "chans \<le> length ?buf" using "1.prems" by simp
    from "1.IH" [OF True idx len]
    obtain buf' where b: "fillChannels dat chans numSamples (ch + 1) ?buf = (buf', None)"
      "length buf' = length ?buf"
      "\<forall>k<length ?buf. buf' ! k =
         (if ch + 1 \<le> k \<and> k < chans then fillChannel dat chans numSamples k 0 (?buf ! k) else ?buf ! k)"
      by blast
    have unfold: "fillChannels dat chans numSamples ch buf = (buf', None)"
      using True idx b(1) by (simp add: fillChannels.simps [of dat chans numSamples ch buf])
    have "\<forall>k<length buf. buf' ! k =
        (if ch \<le> k \<and> k < chans then fillChannel dat chans numSamples k 0 (buf ! k) else buf ! k)"
    proof (intro allI impI)
      fix k assume k: "k < length buf"
      show "buf' ! k =
        (if ch \<le> k \<and> k < chans then fillChannel dat chans numSamples k 0 (buf ! k) else buf ! k)"
      proof (cases "k = ch")
        case True
        then show ?thesis using b(3) k \<open>ch < chans\<close> by simp
      next
        case False
        then show ?thesis using b(3) k by auto
      qed
    qed
    with unfold b(2) show ?thesis by simp
  qed
qed

text \<open>
  C1. The samples of \<open>get_audio_samples\<close> are interleaved by channel and
  \<open>createAudioBuffer\<close> de-interleaves them: with \<open>c \<ge> 1\<close> channels and \<open>L\<close> samples, once
  \<open>createBuffer\<close> has handed out a buffer of \<open>c\<close> channels of \<open>floor(L / c)\<close> frames, the
  function ends without an exception, the playback buffer has \<open>floor(L / c)\<close> frames in
  each of its \<open>c\<close> channels, and frame \<open>i\<close> of channel \<open>ch\<close> is \<open>samples[i * c + ch]\<close>.
\<close>

theorem createAudioBuffer_deinterleaves:
  assumes "1 \<le> AudioSamples.channels s"
    and "createBuffer e (AudioSamples.channels s)
           (length (samples s) div AudioSamples.channels s) (AudioSamples.sample_rate s) = Inr buf0"
    and "length buf0 = AudioSamples.channels s"
    and "\<forall>ch < AudioSamples.channels s.
           length (buf0 ! ch) = length (samples s) div AudioSamples.channels s"
  shows "\<exists>buf. createAudioBuffer e s st = (st\<lparr>audioBuffer := Some buf\<rparr>, None) \<and>
           length buf = AudioSamples.channels s \<and>
           (\<forall>ch < AudioSamples.channels s.
              length (buf ! ch) = length (samples s) div AudioSamples.channels s \<and>
              (\<forall>i < length (samples s) div AudioSamples.channels s.
                 buf ! ch ! i = Some (samples s ! (i * AudioSamples.channels s + ch))))"
proof -
  let ?c = "AudioSamples.channels s"
  let ?n = "length (samples s) div ?c"
  have c: "?c \<noteq> 0" using assms(1) by simp
  have le: "?c \<le> length buf0" using assms(3) by simp
  from fillChannels_spec [OF le, of "samples s" ?n 0]
  obtain buf where b: "fillChannels (samples s) ?c ?n 0 buf0 = (buf, None)"
    "length buf = length buf0"
    "\<forall>k<length buf0. buf ! k =
        (if 0 \<le> k \<and> k < ?c then fillChannel (samples s) ?c ?n k 0 (buf0 ! k) else buf0 ! k)"
    by blast
  have run: "createAudioBuffer e s st = (st\<lparr>audioBuffer := Some buf\<rparr>, None)"
    using c assms(2) b(1) by (simp add: createAudioBuffer_def Let_def)
  have cells: "length (buf ! ch) = ?n \<and>
      (\<forall>i < ?n. buf ! ch ! i = Some (samples s ! (i * ?c + ch)))" if ch: "ch < ?c" for ch
  proof -
    have eq: "buf ! ch = fillChannel (samples s) ?c ?n ch 0 (buf0 ! ch)"
      using b(3) ch assms(3) by simp
    have len0: "length (buf0 ! ch) = ?n" using assms(4) ch by blast
    note fc = fillChannel_spec [OF len0, of "samples s" ?c ch 0]
    have inside: "i * ?c + ch < length (samples s)" if i: "i < ?n" for i
    proof -
      have "Suc i \<le> ?n" using i by simp
      then have "Suc i * ?c \<le> ?n * ?c" by (rule mult_le_mono1)
      also have "\<dots> \<le> length (samples s)" by simp
      finally show ?thesis using ch by simp
    qed
    show ?thesis
      using fc eq inside by (simp add: js_index_def)
  qed
  show ?thesis using run b(2) assms(3) cells by auto
qed

lemma demo_fillChannel_left:
  "fillChannel [1, 2, 3, 4, 5, 6, 7] 2 3 0 0 [Some 0, Some 0, Some 0] = [Some 1, Some 3, Some 5]"
  by (simp add: fillChannel.simps js_index_def)

lemma demo_fillChannel_right:
  "fillChannel [1, 2, 3, 4, 5, 6, 7] 2 3 (Suc 0) 0 [Some 0, Some 0, Some 0] = [Some 2, Some 4, Some 6]"
  by (simp add: fillChannel.simps js_index_def)

lemma demo_fillChannels:
  "fillChannels [1, 2, 3, 4, 5, 6, 7] 2 3 0 [[Some 0, Some 0, Some 0], [Some 0, Some 0, Some 0]]
     = ([[Some 1, Some 3, Some 5], [Some 2, Some 4, Some 6]], None)"
  apply (subst fillChannels.simps)
  apply (simp add: js_index_def demo_fillChannel_left)
  apply (subst fillChannels.simps)
  apply (simp add: js_index_def demo_fillChannel_right)
  apply (subst fillChannels.simps)
  apply simp
  done

lemma demo_createBuffer:
  "createBuffer demo_env 2 3 44100 = Inr [[Some 0, Some 0, Some 0], [Some 0, Some 0, Some 0]]"
  by (simp add: demo_env_def numeral_2_eq_2 numeral_3_eq_3)

lemma demo_createAudioBuffer:
  "createAudioBuffer demo_env demo_samples initial_app
     = (initial_app\<lparr>audioBuffer := Some [[Some 1, Some 3, Some 5], [Some 2, Some 4, Some 6]]\<rparr>, None)"
proof -
  have d: "length [1::real, 2, 3, 4, 5, 6, 7] div 2 = 3" by simp
  show ?thesis
    unfolding createAudioBuffer_def demo_samples_def Let_def
    by (simp only: AudioSamples.simps d demo_createBuffer demo_fillChannels sum.case prod.case
          numeral_eq_iff num.distinct if_False zero_neq_numeral numeral_neq_zero)
qed

theorem createAudioBuffer_deinterleaves_witness:
  "1 \<le> AudioSamples.channels demo_samples \<and>
   createBuffer demo_env 2 3 44100 = Inr [[Some 0, Some 0, Some 0], [Some 0, Some 0, Some 0]] \<and>
   createAudioBuffer demo_env demo_samples initial_app
     = (initial_app\<lparr>audioBuffer := Some [[Some 1, Some 3, Some 5], [Some 2, Some 4, Some 6]]\<rparr>, None) \<and>
   (\<exists>buf. createAudioBuffer demo_env demo_samples initial_app
             = (initial_app\<lparr>audioBuffer := Some buf\<rparr>, None) \<and>
          length buf = AudioSamples.channels demo_samples \<and>
          (\<forall>ch < AudioSamples.channels demo_samples.
              length (buf ! ch)
                = length (samples demo_samples) div AudioSamples.channels demo_samples \<and>
              (\<forall>i < length (samples demo_samples) div AudioSamples.channels demo_samples.
                 buf ! ch ! i
                   = Some (samples demo_samples ! (i * AudioSamples.channels demo_samples + ch)))))"
proof -
  have s: "AudioSamples.channels demo_samples = 2" "length (samples demo_samples) = 7"
    "AudioSamples.sample_rate demo_samples = 44100"
    by (simp_all add: demo_samples_def)
  have d: "(7::nat) div 2 = 3" by simp
  have h1: "1 \<le> AudioSamples.channels demo_samples" by (simp add: s)
  have h2: "createBuffer demo_env (AudioSamples.channels demo_samples)
      (length (samples demo_samples) div AudioSamples.channels demo_samples)
      (AudioSamples.sample_rate demo_samples) = Inr [[Some 0, Some 0, Some 0], [Some 0, Some 0, Some 0]]"
    by (simp only: s d demo_createBuffer)
  have h3: "length [[Some (0::real), Some 0, Some 0], [Some 0, Some 0, Some 0]]
      = AudioSamples.channels demo_samples" by (simp add: s)
  have h4: "\<forall>ch < AudioSamples.channels demo_samples.
      length ([[Some (0::real), Some 0, Some 0], [Some 0, Some 0, Some 0]] ! ch)
        = length (samples demo_samples) div AudioSamples.channels demo_samples"
  proof (intro allI impI)
    fix ch assume "ch < AudioSamples.channels demo_samples"
    then have "ch = 0 \<or> ch = 1" unfolding s by arith
    then show "length ([[Some (0::real), Some 0, Some 0], [Some 0, Some 0, Some 0]] ! ch)
        = length (samples demo_samples) div AudioSamples.channels demo_samples"
      unfolding s(1,2) d by auto
  qed
  show ?thesis
    by (intro conjI h1 demo_createBuffer demo_createAudioBuffer
          createAudioBuffer_deinterleaves [OF h1 h2 h3 h4])
qed

section \<open>Opening a file\<close>

lemma drawSpectrogram_frame:
  "filePath (drawSpectrogram st) = filePath st"
  "maxFreq (drawSpectrogram st) = maxFreq st"
  by (simp_all add: drawSpectrogram_def Let_def split: option.splits prod.splits)

lemma stopAudio_frame:
  "filePath (stopAudio st) = filePath st"
  "maxFreq (stopAudio st) = maxFreq st"
  by (simp_all add: stopAudio_def Let_def drawSpectrogram_frame)

lemma loadAudio_trace_shape:
  "\<exists>rest. snd (loadAudio e st) = OpenDialog audio_open_options # rest \<and>
          (\<forall>opts. OpenDialog opts \<notin> set rest)"
  by (simp add: loadAudio_def Let_def split: sum.splits option.splits prod.splits)

lemma loadAudio_chosen_path:
  assumes "open_dialog e audio_open_options = Inr (Some p)" "p \<noteq> []"
  shows "\<exists>rest. snd (loadAudio e st) = OpenDialog audio_open_options # Invoke (Load_audio p) # rest"
  using assms
  by (simp add: loadAudio_def Let_def stopAudio_frame split: sum.splits option.splits prod.splits)

text \<open>
  C2. \<open>loadAudio\<close> opens exactly one file dialog, with the single filter \<open>Audio\<close> of the
  extensions \<open>wav\<close>, \<open>mp3\<close>, \<open>flac\<close>, \<open>ogg\<close>, \<open>m4a\<close>, and whatever non-empty path the dialog
  returns is passed to \<open>load_audio\<close> as the next effect: the UI checks no extension.
\<close>

theorem loadAudio_extension_allow_list:
  "\<exists>rest. snd (loadAudio e st) =
      OpenDialog \<lparr>multiple = False,
                  open_options.filters =
                    [\<lparr>name = ''Audio'',
                      extensions = [''wav'', ''mp3'', ''flac'', ''ogg'', ''m4a'']\<rparr>]\<rparr> # rest \<and>
      (\<forall>opts. OpenDialog opts \<notin> set rest) \<and>
      (\<forall>p. open_dialog e audio_open_options = Inr (Some p) \<and> p \<noteq> [] \<longrightarrow>
           (\<exists>rest'. rest = Invoke (Load_audio p) # rest'))"
proof -
  obtain rest where r: "snd (loadAudio e st) = OpenDialog audio_open_options # rest"
    "\<forall>opts. OpenDialog opts \<notin> set rest"
    using loadAudio_trace_shape by blast
  have "\<exists>rest'. rest = Invoke (Load_audio p) # rest'"
    if "open_dialog e audio_open_options = Inr (Some p)" "p \<noteq> []" for p
    using loadAudio_chosen_path [OF that, of st] r(1) by simp
  with r show ?thesis by (auto simp: audio_open_options_def)
qed

lemma createAudioBuffer_maxFreq:
  "maxFreq (fst (createAudioBuffer e smp st)) = maxFreq st"
  by (simp add: createAudioBuffer_def Let_def split: sum.splits option.splits prod.splits)

lemma createAudioBuffer_maxFreq_pair:
  "createAudioBuffer e smp st = (st', r) \<Longrightarrow> maxFreq st' = maxFreq st"
  using createAudioBuffer_maxFreq [of e smp st] by simp

lemma loadAudio_keeps_maxFreq: "maxFreq (fst (loadAudio e st)) = maxFreq st"
  by (auto simp: loadAudio_def load_failed_def Let_def stopAudio_frame drawSpectrogram_frame
        split: sum.splits option.splits prod.splits dest!: createAudioBuffer_maxFreq_pair)

lemma demo_open: "open_dialog demo_env audio_open_options = Inr (Some ''/tmp/notes.txt'')"
  by (simp add: demo_env_def)

lemma demo_load: "invoke_load_audio demo_env ''/tmp/notes.txt'' = Inr demo_info"
  by (simp add: demo_env_def)

theorem loadAudio_extension_allow_list_witness:
  "open_dialog demo_env audio_open_options = Inr (Some ''/tmp/notes.txt'') \<and>
   (\<exists>rest'. snd (loadAudio demo_env initial_app) =
      OpenDialog \<lparr>multiple = False,
                  open_options.filters =
                    [\<lparr>name = ''Audio'',
                      extensions = [''wav'', ''mp3'', ''flac'', ''ogg'', ''m4a'']\<rparr>]\<rparr> #
      Invoke (Load_audio ''/tmp/notes.txt'') # rest')"
proof -
  from loadAudio_extension_allow_list [of demo_env initial_app]
  obtain rest where r: "snd (loadAudio demo_env initial_app) =
      OpenDialog \<lparr>multiple = False,
                  open_options.filters =
                    [\<lparr>name = ''Audio'',
                      extensions = [''wav'', ''mp3'', ''flac'', ''ogg'', ''m4a'']\<rparr>]\<rparr> # rest \<and>
      (\<forall>opts. OpenDialog opts \<notin> set rest) \<and>
      (\<forall>p. open_dialog demo_env audio_open_options = Inr (Some p) \<and> p \<noteq> [] \<longrightarrow>
           (\<exists>rest'. rest = Invoke (Load_audio p) # rest'))"
    by (rule exE)
  have "\<exists>rest'. rest = Invoke (Load_audio ''/tmp/notes.txt'') # rest'"
    using r demo_open by blast
  then show ?thesis using r demo_open by auto
qed

text \<open>
  C3. \<open>maxFreq\<close> starts at 8000. From whatever state a load starts (the first file,
  a second one, a load after a selection), once \<open>load_audio\<close> has answered it invokes
  \<open>compute_spectrogram\<close> with the \<open>maxFreq\<close> of that state, and \<open>loadAudio\<close> itself
  leaves \<open>maxFreq\<close> as it was: as long as nothing else has changed it, every load asks
  for 8000.
\<close>

theorem loadAudio_default_max_freq:
  "maxFreq initial_app = 8000 \<and>
   (\<forall>e st p info. open_dialog e audio_open_options = Inr (Some p) \<and> p \<noteq> [] \<and>
        invoke_load_audio e p = Inr info \<longrightarrow>
      (\<exists>rest. snd (loadAudio e st) =
         OpenDialog audio_open_options # Invoke (Load_audio p) #
         Invoke (Compute_spectrogram (maxFreq st)) # rest)) \<and>
   (\<forall>e st. maxFreq (fst (loadAudio e st)) = maxFreq st)"
proof -
  have m: "maxFreq initial_app = 8000" by (simp add: initial_app_def)
  have "\<exists>rest. snd (loadAudio e st) =
         OpenDialog audio_open_options # Invoke (Load_audio p) #
         Invoke (Compute_spectrogram (maxFreq st)) # rest"
    if "open_dialog e audio_open_options = Inr (Some p)" "p \<noteq> []"
       "invoke_load_audio e p = Inr info" for e p info st
    using that
    by (simp add: loadAudio_def Let_def stopAudio_frame split: sum.splits option.splits prod.splits)
  then show ?thesis using m loadAudio_keeps_maxFreq by blast
qed

theorem loadAudio_default_max_freq_witness:
  "open_dialog demo_env audio_open_options = Inr (Some ''/tmp/notes.txt'') \<and>
   invoke_load_audio demo_env ''/tmp/notes.txt'' = Inr demo_info \<and>
   audioInfo demo_loaded = Some demo_info \<and>
   maxFreq demo_loaded = 8000 \<and>
   (\<exists>rest. snd (loadAudio demo_env demo_loaded) =
       OpenDialog audio_open_options # Invoke (Load_audio ''/tmp/notes.txt'') #
       Invoke (Compute_spectrogram 8000) # rest) \<and>
   maxFreq (fst (loadAudio demo_env demo_loaded)) = 8000"
proof -
  have m: "maxFreq demo_loaded = 8000" "audioInfo demo_loaded = Some demo_info"
    by (simp_all add: demo_loaded_def initial_app_def)
  have ne: "''/tmp/notes.txt'' \<noteq> []" by simp
  have general: "\<forall>e st p info. open_dialog e audio_open_options = Inr (Some p) \<and> p \<noteq> [] \<and>
        invoke_load_audio e p = Inr info \<longrightarrow>
      (\<exists>rest. snd (loadAudio e st) =
         OpenDialog audio_open_options # Invoke (Load_audio p) #
         Invoke (Compute_spectrogram (maxFreq st)) # rest)"
    and keeps: "\<forall>e st. maxFreq (fst (loadAudio e st)) = maxFreq st"
    using loadAudio_default_max_freq by simp_all
  from general demo_open demo_load ne
  have "\<exists>rest. snd (loadAudio demo_env demo_loaded) =
       OpenDialog audio_open_options # Invoke (Load_audio ''/tmp/notes.txt'') #
       Invoke (Compute_spectrogram (maxFreq demo_loaded)) # rest"
    by blast
  moreover have "maxFreq (fst (loadAudio demo_env demo_loaded)) = maxFreq demo_loaded"
    using keeps by blast
  ultimately show ?thesis using m demo_open demo_load by simp
qed

section \<open>Field names of the command results\<close>

text \<open>
  C4. The interfaces the UI declares for the results of \<open>load_audio\<close>,
  \<open>compute_spectrogram\<close>, \<open>analyze_forensics\<close> and \<open>get_audio_samples\<close> have exactly the
  fields \<open>duration\<close>, \<open>sample_rate\<close>, \<open>channels\<close>; \<open>data\<close>, \<open>times\<close>, \<open>max_freq\<close>; the
  eight fields of the forensic record; and \<open>samples\<close>, \<open>sample_rate\<close>, \<open>channels\<close>: the
  snake-case names of the command table.
\<close>

theorem ui_interfaces_match_command_table:
  "map_option field_names (ui_result_interface ''load_audio'')
     = Some [''duration'', ''sample_rate'', ''channels''] \<and>
   map_option field_names (ui_result_interface ''compute_spectrogram'')
     = Some [''data'', ''times'', ''max_freq''] \<and>
   map_option field_names (ui_result_interface ''analyze_forensics'')
     = Some [''enf_present'', ''enf_strength_db'', ''grid_freq'', ''splice_times'', ''snr_db'',
             ''dynamic_range_db'', ''has_clipping'', ''clipped_count''] \<and>
   map_option field_names (ui_result_interface ''get_audio_samples'')
     = Some [''samples'', ''sample_rate'', ''channels''] \<and>
   map_option field_names (ui_result_interface ''load_audio'')
     = command_table_fields ''load_audio'' \<and>
   map_option field_names (ui_result_interface ''compute_spectrogram'')
     = command_table_fields ''compute_spectrogram'' \<and>
   map_option field_names (ui_result_interface ''analyze_forensics'')
     = command_table_fields ''analyze_forensics'' \<and>
   map_option field_names (ui_result_interface ''get_audio_samples'')
     = command_table_fields ''get_audio_samples''"
  by (simp add: ui_result_interface_def command_table_fields_def field_names_def
        AudioInfo_interface_def SpectrogramData_interface_def ForensicData_interface_def
        AudioSamples_interface_def)

section \<open>Export of an empty range\<close>

text \<open>
  C5. With a track loaded, \<open>export_audio\<close> on a range that is empty after clipping to
  \<open>[0, duration]\<close> fails with \<open>EmptyRange\<close> and leaves the files as they were; in
  particular for \<open>start_s = end_s = t\<close>, whatever \<open>t\<close> is.
\<close>

theorem export_audio_empty_range:
  "(clip_time (duration (info tr)) end_s \<le> clip_time (duration (info tr)) start_s \<longrightarrow>
      export_audio write_fault (Some tr) files out_path start_s end_s = (files, Inl EmptyRange)) \<and>
   export_audio write_fault (Some tr) files out_path t t = (files, Inl EmptyRange)"
  by (simp add: export_audio_def Let_def)

theorem export_audio_empty_range_witness:
  "clip_time (duration (info demo_track)) 2 \<le> clip_time (duration (info demo_track)) 3 \<and>
   export_audio (\<lambda>p. None) (Some demo_track) Map.empty ''/tmp/out.wav'' 3 2
     = (Map.empty, Inl EmptyRange) \<and>
   export_audio (\<lambda>p. None) (Some demo_track) Map.empty ''/tmp/out.wav'' (1 / 20) (1 / 20)
     = (Map.empty, Inl EmptyRange)"
proof -
  have h: "clip_time (duration (info demo_track)) 2 \<le> clip_time (duration (info demo_track)) 3"
    by (simp add: clip_time_def demo_track_def)
  from export_audio_empty_range [of demo_track 2 3 "\<lambda>p. None" Map.empty "''/tmp/out.wav''" "1 / 20"] h
  show ?thesis by blast
qed

lemma demo_bins: "length (kept_bins 44100 8000) \<le> 1025"
proof -
  have "length (kept_bins 44100 8000) \<le> length [0 ..< window_size div 2 + 1]"
    unfolding kept_bins_def by (rule length_filter_le)
  then show ?thesis by (simp add: window_size_def)
qed

section \<open>The spectrogram matrix and its rendering\<close>

lemma magnitude_db_floor: "- 200 \<le> magnitude_db m"
proof -
  have pos: "(0::real) < 1 / 10 ^ 10" by simp
  have "log 10 (1 / 10 ^ 10) \<le> log 10 (max m (1 / 10 ^ 10))"
    using pos by (subst log_le_cancel_iff) auto
  moreover have "log 10 (1 / 10 ^ 10) = - 10"
  proof -
    have "log 10 ((10::real) ^ 10) = real 10"
      by (rule log_pow_cancel) simp_all
    then show ?thesis
      by (simp only: log_recip)
  qed
  ultimately have "- 10 \<le> log 10 (max m (1 / 10 ^ 10))" by (simp only:)
  then show ?thesis unfolding magnitude_db_def by linarith
qed

lemma frame_row_length: "length (frame_row x sr max_f m) = length (kept_bins sr max_f)"
  by (simp add: frame_row_def)

lemma frame_row_floor: "v \<in> set (frame_row x sr max_f m) \<Longrightarrow> - 200 \<le> v"
  by (auto simp: frame_row_def floor_db_def)

lemma kept_bins_nonempty: "0 \<le> max_f \<Longrightarrow> kept_bins sr max_f \<noteq> []"
proof -
  assume "0 \<le> max_f"
  then have "0 \<in> set (kept_bins sr max_f)"
    by (simp add: kept_bins_def window_size_def)
  then show ?thesis by auto
qed

lemma stft_rows:
  "row \<in> set (data (stft x sr max_f)) \<Longrightarrow>
     length row = length (kept_bins sr max_f) \<and> (\<forall>v \<in> set row. - 200 \<le> v)"
  by (auto simp: stft_def frame_row_length frame_row_floor)

lemma shl2_small:
  assumes "n * 4 < 2 ^ 31"
  shows "shl2 n = int (n * 4)"
proof -
  have "int (n * 4) < 2 ^ 31"
    using assms by (metis of_nat_less_iff of_nat_numeral of_nat_power)
  then have b: "int n * 4 < 2 ^ 31" by simp
  then have "(int n * 4) mod 2 ^ 32 = int n * 4"
    by (intro mod_pos_pos_trivial) simp_all
  then show ?thesis using b by (simp add: shl2_def Let_def)
qed

lemma length_put: "length (put ps i v) = length ps"
  by (simp add: put_def)

lemma put_nth:
  "put ps (int a) v ! p = (if p = a \<and> a < length ps then to_uint8_clamped v else ps ! p)"
  by (simp add: put_def nth_list_update)

lemma cell_index_bound:
  fixes W H x y :: nat
  assumes "x < W" "y < H"
  shows "(H - 1 - y) * W + x < W * H"
proof -
  have "H - 1 - y \<le> H - 1" by arith
  then have "(H - 1 - y) * W \<le> (H - 1) * W" by (rule mult_le_mono1)
  then have "(H - 1 - y) * W + x < (H - 1) * W + W" using assms(1) by linarith
  also have "\<dots> = H * W" using assms(2) by (cases H) simp_all
  finally show ?thesis by (simp add: mult.commute)
qed

lemma paintCell_length:
  "length (paintCell st vi di W H frame x y ps) = length ps"
  by (simp add: paintCell_def Let_def length_put)

lemma paintCell_nth:
  assumes "x < W" "y < H" "length ps = W * H * 4" "W * H * 4 < 2 ^ 31" "p < length ps"
  shows "paintCell st vi di W H frame x y ps ! p =
     (if p div 4 = (H - 1 - y) * W + x then
        (if p mod 4 = 3 then 255
         else to_uint8_clamped (lutEntry st vi di (js_index frame y) (p mod 4)))
      else ps ! p)"
proof -
  define c where "c = (H - 1 - y) * W + x"
  have c: "c < W * H" unfolding c_def using assms(1,2) by (rule cell_index_bound)
  then have c4: "c * 4 + 3 < length ps" using assms(3) by simp
  have "c * 4 < W * H * 4" using c by simp
  then have small: "c * 4 < 2 ^ 31" using assms(4) by (rule less_trans)
  have idx: "shl2 c = int (c * 4)" using small by (rule shl2_small)
  have i1: "int (c * 4) + 1 = int (c * 4 + 1)" and i2: "int (c * 4) + 2 = int (c * 4 + 2)"
    and i3: "int (c * 4) + 3 = int (c * 4 + 3)" by simp_all
  have cells: "p div 4 = c \<longleftrightarrow> p = c * 4 \<or> p = c * 4 + 1 \<or> p = c * 4 + 2 \<or> p = c * 4 + 3"
    by presburger
  have m: "p = c * 4 \<Longrightarrow> p mod 4 = 0" "p = c * 4 + 1 \<Longrightarrow> p mod 4 = 1"
    "p = c * 4 + 2 \<Longrightarrow> p mod 4 = 2" "p = c * 4 + 3 \<Longrightarrow> p mod 4 = 3"
    by presburger+
  have k255: "to_uint8_clamped (Some 255) = 255" by (simp add: to_uint8_clamped_def)
  let ?e = "\<lambda>k. lutEntry st vi di (js_index frame y) k"
  have eq: "paintCell st vi di W H frame x y ps =
      put (put (put (put ps (int (c * 4)) (?e 0)) (int (c * 4 + 1)) (?e 1))
        (int (c * 4 + 2)) (?e 2)) (int (c * 4 + 3)) (Some 255)"
    unfolding paintCell_def Let_def c_def [symmetric] idx i1 i2 i3 by (rule refl)
  have b: "c * 4 < length ps" "c * 4 + 1 < length ps" "c * 4 + 2 < length ps"
    using c4 by simp_all
  have "paintCell st vi di W H frame x y ps ! p =
     (if p = c * 4 + 3 then 255
      else if p = c * 4 + 2 then to_uint8_clamped (?e 2)
      else if p = c * 4 + 1 then to_uint8_clamped (?e 1)
      else if p = c * 4 then to_uint8_clamped (?e 0)
      else ps ! p)"
    by (simp only: eq put_nth length_put c4 b k255 simp_thms)
  then show ?thesis
    unfolding c_def [symmetric] using cells m by auto
qed

lemma paintCell_byte:
  assumes "x < W" "y < H" "length ps = W * H * 4" "W * H * 4 < 2 ^ 31" "p < length ps"
  shows "paintCell st vi di W H frame x y ps ! p =
     (if p div 4 = (H - 1 - y) * W + x then painted_byte st vi di (js_index frame y) (p mod 4)
      else ps ! p)"
  using paintCell_nth [OF assms] by (simp add: painted_byte_def)

lemma cell_of_byte:
  fixes W H x y c :: nat
  assumes "x < W" "y < H" "c < W * H"
  shows "c = (H - 1 - y) * W + x \<longleftrightarrow> c mod W = x \<and> H - 1 - c div W = y"
proof
  assume c: "c = (H - 1 - y) * W + x"
  have "c mod W = x" using c assms(1) by simp
  moreover have "c div W = H - 1 - y" using c assms(1) by simp
  ultimately show "c mod W = x \<and> H - 1 - c div W = y" using assms(2) by simp
next
  assume r: "c mod W = x \<and> H - 1 - c div W = y"
  have "c div W < H" using assms(3) by (simp add: less_mult_imp_div_less mult.commute)
  then have "c div W = H - 1 - y" using r by linarith
  moreover have "c = c div W * W + c mod W" by simp
  ultimately show "c = (H - 1 - y) * W + x" using r by simp
qed

lemma paintFrame_bytes:
  assumes "x < W" "length ps = W * H * 4" "W * H * 4 < 2 ^ 31"
  shows "length (paintFrame st vi di W H frame x y0 ps) = length ps \<and>
     (\<forall>p < length ps. paintFrame st vi di W H frame x y0 ps ! p =
        (if (p div 4) mod W = x \<and> y0 \<le> H - 1 - (p div 4) div W
         then painted_byte st vi di (js_index frame (H - 1 - (p div 4) div W)) (p mod 4)
         else ps ! p))"
  using assms
proof (induction st vi di W H frame x y0 ps rule: paintFrame.induct)
  case (1 st vi di W H frame x y0 ps)
  show ?case
  proof (cases "y0 < H")
    case False
    have "\<not> y0 \<le> H - 1 - (p div 4) div W" if "p < length ps" for p
    proof -
      have "0 < H" using that "1.prems"(2) by (cases H) simp_all
      then show ?thesis using False by linarith
    qed
    then show ?thesis
      using False by (simp add: paintFrame.simps [of st vi di W H frame x y0 ps])
  next
    case True
    let ?ps = "paintCell st vi di W H frame x y0 ps"
    have len: "length ?ps = W * H * 4" using "1.prems"(2) by (simp add: paintCell_length)
    note IH = "1.IH" [OF True "1.prems"(1) len "1.prems"(3)]
    have unfold: "paintFrame st vi di W H frame x y0 ps
        = paintFrame st vi di W H frame x (y0 + 1) ?ps"
      using True by (simp add: paintFrame.simps [of st vi di W H frame x y0 ps])
    show ?thesis
    proof (intro conjI allI impI)
      show "length (paintFrame st vi di W H frame x y0 ps) = length ps"
        using IH unfold len "1.prems"(2) by simp
    next
      fix p assume p: "p < length ps"
      then have p': "p < length ?ps" using len "1.prems"(2) by simp
      have c: "p div 4 < W * H" using p "1.prems"(2) by simp
      have cell: "p div 4 = (H - 1 - y0) * W + x
          \<longleftrightarrow> (p div 4) mod W = x \<and> H - 1 - (p div 4) div W = y0"
        using "1.prems"(1) True c by (rule cell_of_byte)
      have a: "paintFrame st vi di W H frame x (y0 + 1) ?ps ! p =
          (if (p div 4) mod W = x \<and> y0 + 1 \<le> H - 1 - (p div 4) div W
           then painted_byte st vi di (js_index frame (H - 1 - (p div 4) div W)) (p mod 4)
           else ?ps ! p)"
        using IH p' by blast
      have b: "?ps ! p =
          (if p div 4 = (H - 1 - y0) * W + x then painted_byte st vi di (js_index frame y0) (p mod 4)
           else ps ! p)"
        using "1.prems"(1) True "1.prems"(2,3) p by (rule paintCell_byte)
      show "paintFrame st vi di W H frame x y0 ps ! p =
          (if (p div 4) mod W = x \<and> y0 \<le> H - 1 - (p div 4) div W
           then painted_byte st vi di (js_index frame (H - 1 - (p div 4) div W)) (p mod 4)
           else ps ! p)"
        unfolding unfold a b cell by auto
    qed
  qed
qed

lemma paintFrames_bytes:
  assumes "length ps = length dat * H * 4" "length dat * H * 4 < 2 ^ 31"
  shows "\<exists>px. paintFrames st vi di dat (length dat) H x0 ps = Inr px \<and>
     length px = length ps \<and>
     (\<forall>p < length ps. px ! p =
        (if x0 \<le> (p div 4) mod length dat
         then painted_byte st vi di
                (js_index (dat ! ((p div 4) mod length dat)) (H - 1 - (p div 4) div length dat))
                (p mod 4)
         else ps ! p))"
  using assms
proof (induction st vi di dat "length dat" H x0 ps rule: paintFrames.induct)
  case (1 st vi di dat H x0 ps)
  let ?W = "length dat"
  show ?case
  proof (cases "x0 < ?W")
    case False
    have "\<not> x0 \<le> (p div 4) mod ?W" if "p < length ps" for p
    proof -
      have "0 < ?W" using that "1.prems"(1) by (cases dat) simp_all
      then have "(p div 4) mod ?W < ?W" by simp
      then show ?thesis using False by linarith
    qed
    then show ?thesis
      using False by (simp add: paintFrames.simps [of st vi di dat ?W H x0 ps])
  next
    case True
    then have idx: "js_index dat x0 = Some (dat ! x0)" by (simp add: js_index_def)
    let ?ps = "paintFrame st vi di ?W H (dat ! x0) x0 0 ps"
    note inner = paintFrame_bytes [OF True "1.prems"(1) "1.prems"(2), of st vi di "dat ! x0" 0]
    have len: "length ?ps = ?W * H * 4" using inner "1.prems"(1) by simp
    from "1.hyps"(2) [OF True idx len "1.prems"(2)]
    obtain px where px: "paintFrames st vi di dat ?W H (x0 + 1) ?ps = Inr px"
      "length px = length ?ps"
      "\<forall>p < length ?ps. px ! p =
        (if x0 + 1 \<le> (p div 4) mod ?W
         then painted_byte st vi di (js_index (dat ! ((p div 4) mod ?W)) (H - 1 - (p div 4) div ?W)) (p mod 4)
         else ?ps ! p)"
      by blast
    have unfold: "paintFrames st vi di dat ?W H x0 ps = Inr px"
      using True idx px(1) by (simp add: paintFrames.simps [of st vi di dat ?W H x0 ps])
    have "\<forall>p < length ps. px ! p =
        (if x0 \<le> (p div 4) mod ?W
         then painted_byte st vi di (js_index (dat ! ((p div 4) mod ?W)) (H - 1 - (p div 4) div ?W)) (p mod 4)
         else ps ! p)"
    proof (intro allI impI)
      fix p assume p: "p < length ps"
      then have p': "p < length ?ps" using len "1.prems"(1) by simp
      have a: "px ! p =
        (if x0 + 1 \<le> (p div 4) mod ?W
         then painted_byte st vi di (js_index (dat ! ((p div 4) mod ?W)) (H - 1 - (p div 4) div ?W)) (p mod 4)
         else ?ps ! p)"
        using px(3) p' by blast
      have b: "?ps ! p =
        (if (p div 4) mod ?W = x0 \<and> 0 \<le> H - 1 - (p div 4) div ?W
         then painted_byte st vi di (js_index (dat ! x0) (H - 1 - (p div 4) div ?W)) (p mod 4)
         else ps ! p)"
        using inner p by blast
      show "px ! p =
        (if x0 \<le> (p div 4) mod ?W
         then painted_byte st vi di (js_index (dat ! ((p div 4) mod ?W)) (H - 1 - (p div 4) div ?W)) (p mod 4)
         else ps ! p)"
      proof (cases "(p div 4) mod ?W = x0")
        case True
        then show ?thesis unfolding a b by simp
      next
        case False
        then show ?thesis unfolding a b by auto
      qed
    qed
    with unfold px(2) len "1.prems"(1) show ?thesis by simp
  qed
qed

lemma renderSpectrogramToCache_cells:
  assumes "viridisLUT st = Some vi" "dimmedLUT st = Some di"
    and "\<forall>row \<in> set dat. length row = H" "length dat * H * 4 < 2 ^ 31"
  shows "\<exists>px. renderSpectrogramToCache st dat (length dat) H = Inr (Some px) \<and>
     length px = length dat * H * 4 \<and>
     (\<forall>x y k. x < length dat \<and> y < H \<and> k < 4 \<longrightarrow>
        px ! (((H - 1 - y) * length dat + x) * 4 + k)
          = painted_byte st vi di (Some (dat ! x ! y)) k)"
proof -
  let ?W = "length dat"
  let ?ps = "replicate (?W * H * 4) (0::nat)"
  have len: "length ?ps = ?W * H * 4" by simp
  from paintFrames_bytes [OF len assms(4), of st vi di 0]
  obtain px where px: "paintFrames st vi di dat ?W H 0 ?ps = Inr px" "length px = length ?ps"
    "\<forall>p < length ?ps. px ! p =
        (if 0 \<le> (p div 4) mod ?W
         then painted_byte st vi di
                (js_index (dat ! ((p div 4) mod ?W)) (H - 1 - (p div 4) div ?W)) (p mod 4)
         else ?ps ! p)"
    by blast
  have run: "renderSpectrogramToCache st dat ?W H = Inr (Some px)"
    using assms(1,2) px(1) by (simp add: renderSpectrogramToCache_def)
  have cell: "px ! (((H - 1 - y) * ?W + x) * 4 + k) = painted_byte st vi di (Some (dat ! x ! y)) k"
    if "x < ?W" "y < H" "k < 4" for x y k
  proof -
    define c where "c = (H - 1 - y) * ?W + x"
    have c: "c < ?W * H" unfolding c_def using that(1,2) by (rule cell_index_bound)
    have p: "c * 4 + k < length ?ps" using c that(3) by simp
    have d: "(c * 4 + k) div 4 = c" "(c * 4 + k) mod 4 = k" using that(3) by simp_all
    have xy: "c mod ?W = x \<and> H - 1 - c div ?W = y"
      using cell_of_byte [OF that(1,2) c] c_def by simp
    have "length (dat ! x) = H" using assms(3) that(1) by simp
    then have v: "js_index (dat ! x) y = Some (dat ! x ! y)"
      using that(2) by (simp add: js_index_def)
    have "px ! (c * 4 + k) =
        painted_byte st vi di (js_index (dat ! (c mod ?W)) (H - 1 - c div ?W)) k"
      using px(3) p d by simp
    then show ?thesis
      unfolding c_def [symmetric] using xy v by simp
  qed
  show ?thesis
    using run px(2) cell by (intro exI [of _ px]) simp
qed

lemma scanRow_fold:
  "scanRow frame numBins j acc = fold scanCell (map (js_index frame) [j ..< numBins]) acc"
proof (induction frame numBins j acc rule: scanRow.induct)
  case (1 frame numBins j acc)
  show ?case
  proof (cases "j < numBins")
    case True
    then show ?thesis
      using "1.IH" by (simp add: scanRow.simps [of frame numBins j acc] upt_conv_Cons)
  next
    case False
    then show ?thesis by (simp add: scanRow.simps [of frame numBins j acc])
  qed
qed

lemma scanFrames_fold:
  "scanFrames dat numFrames numBins i acc =
     fold (\<lambda>i. scanRow (dat ! i) numBins 0) [i ..< numFrames] acc"
proof (induction dat numFrames numBins i acc rule: scanFrames.induct)
  case (1 dat numFrames numBins i acc)
  show ?case
  proof (cases "i < numFrames")
    case True
    then show ?thesis
      using "1.IH" by (simp add: scanFrames.simps [of dat numFrames numBins i acc] upt_conv_Cons)
  next
    case False
    then show ?thesis by (simp add: scanFrames.simps [of dat numFrames numBins i acc])
  qed
qed

lemma scanCell_Some:
  "scanCell (Some v) (Some a, Some b) = (Some (min v a), Some (max v b))"
  by (auto simp: scanCell_def min_def max_def)

lemma fold_scanCell_Some:
  "fold scanCell (map Some xs) (Some a, Some b) =
     (Some (Min (insert a (set xs))), Some (Max (insert b (set xs))))"
proof (induction xs arbitrary: a b)
  case Nil
  then show ?case by simp
next
  case (Cons x xs)
  have mn: "Min (insert (min x a) (set xs)) = Min (insert a (insert x (set xs)))"
    by (cases "set xs = {}") (simp_all add: min.commute min.left_commute)
  have mx: "Max (insert (max x b) (set xs)) = Max (insert b (insert x (set xs)))"
    by (cases "set xs = {}") (simp_all add: max.commute max.left_commute)
  show ?case
    by (simp only: list.map fold_simps scanCell_Some Cons.IH mn mx list.set)
qed

lemma fold_scanCell_start:
  "xs \<noteq> [] \<Longrightarrow>
   fold scanCell (map Some xs) (None, None) = (Some (Min (set xs)), Some (Max (set xs)))"
proof (cases xs)
  case Nil
  assume "xs \<noteq> []"
  with Nil show ?thesis by simp
next
  case (Cons x xs')
  have "scanCell (Some x) (None, None) = (Some x, Some x)"
    by (simp add: scanCell_def)
  then show ?thesis
    using Cons by (simp add: fold_scanCell_Some)
qed

lemma scanRow_full:
  "length frame = numBins \<Longrightarrow> scanRow frame numBins 0 acc = fold scanCell (map Some frame) acc"
proof -
  assume len: "length frame = numBins"
  have "map (js_index frame) [0 ..< numBins] = map Some frame"
    using len by (intro nth_equalityI) (simp_all add: js_index_def)
  then show ?thesis by (simp add: scanRow_fold)
qed

lemma fold_concat_rows: "fold f (concat xss) acc = fold (fold f) xss acc"
  by (induction xss arbitrary: acc) simp_all

lemma scanFrames_full:
  assumes "\<forall>row \<in> set dat. length row = numBins"
  shows "scanFrames dat (length dat) numBins 0 acc = fold scanCell (map Some (concat dat)) acc"
proof -
  have "fold (\<lambda>i. scanRow (dat ! i) numBins 0) [0 ..< length dat] acc
      = fold (\<lambda>row. scanRow row numBins 0) (map (\<lambda>i. dat ! i) [0 ..< length dat]) acc"
    by (simp add: fold_map comp_def)
  also have "\<dots> = fold (\<lambda>row. scanRow row numBins 0) dat acc"
    by (simp add: map_nth)
  also have "\<dots> = fold (\<lambda>row. fold scanCell (map Some row)) dat acc"
    using assms by (intro fold_cong) (auto simp: scanRow_full)
  also have "\<dots> = fold scanCell (map Some (concat dat)) acc"
    by (simp add: map_concat fold_concat_rows fold_map comp_def)
  finally show ?thesis by (simp add: scanFrames_fold)
qed

lemma fold_scanCell_defined:
  "\<exists>a b. fold scanCell vs (Some a0, Some b0) = (Some a, Some b)"
proof (induction vs arbitrary: a0 b0)
  case Nil
  then show ?case by simp
next
  case (Cons v vs)
  have "\<exists>a b. scanCell v (Some a0, Some b0) = (Some a, Some b)"
    by (cases v) (simp_all add: scanCell_def Let_def)
  then show ?case using Cons.IH by auto
qed

lemma scanRow_defined:
  "\<exists>a b. scanRow frame numBins j (Some a0, Some b0) = (Some a, Some b)"
  by (simp add: scanRow_fold fold_scanCell_defined)

lemma fold_scanRow_defined:
  "\<exists>a b. fold (\<lambda>i. scanRow (dat ! i) numBins 0) is (Some a0, Some b0) = (Some a, Some b)"
proof (induction "is" arbitrary: a0 b0)
  case Nil
  then show ?case by simp
next
  case (Cons i "is")
  obtain a b where "scanRow (dat ! i) numBins 0 (Some a0, Some b0) = (Some a, Some b)"
    using scanRow_defined by blast
  then show ?case using Cons.IH by auto
qed

text \<open>
  With a first row of \<open>numBins > 0\<close> entries the scan leaves both bounds finite, so the
  last case of the range update in \<open>drawSpectrogram\<close> is never taken.
\<close>

lemma scanFrames_defined:
  assumes "dat \<noteq> []" "length (dat ! 0) = numBins" "0 < numBins"
  shows "\<exists>a b. scanFrames dat (length dat) numBins 0 (None, None) = (Some a, Some b)"
proof -
  have len: "0 < length dat" using assms(1) by simp
  have row0: "scanRow (dat ! 0) numBins 0 (None, None)
      = (Some (Min (set (dat ! 0))), Some (Max (set (dat ! 0))))"
  proof -
    have ne: "dat ! 0 \<noteq> []" using assms(2,3) by auto
    show ?thesis
      using scanRow_full [OF assms(2), of "(None, None)"] fold_scanCell_start [OF ne] by simp
  qed
  have "scanFrames dat (length dat) numBins 0 (None, None)
      = fold (\<lambda>i. scanRow (dat ! i) numBins 0) [1 ..< length dat]
          (scanRow (dat ! 0) numBins 0 (None, None))"
    using len by (simp add: scanFrames_fold upt_conv_Cons)
  then show ?thesis
    using row0 fold_scanRow_defined by simp
qed

lemma drawSpectrogram_range:
  assumes "ctx st" "canvas st \<noteq> None" "spectrogramData st = Some sd"
    and "data sd \<noteq> []" "\<forall>row \<in> set (data sd). length row = numBins" "0 < numBins"
    and "cachedMinDb st = 0" "cachedMaxDb st = 0"
  shows "cachedMinDb (drawSpectrogram st) = Min (set (concat (data sd))) \<and>
         cachedMaxDb (drawSpectrogram st) = Max (set (concat (data sd)))"
proof -
  obtain row0 rest where d: "data sd = row0 # rest"
    using assms(4) by (cases "data sd") auto
  obtain cv where cv: "canvas st = Some cv"
    using assms(2) by auto
  have r0: "length row0 = numBins" using assms(5) d by simp
  have idx: "js_index (data sd) 0 = Some row0" by (simp add: js_index_def d)
  have ne: "concat (data sd) \<noteq> []" using d r0 assms(6) by auto
  have scan: "scanFrames (data sd) (length (data sd)) numBins 0 (None, None)
      = (Some (Min (set (concat (data sd)))), Some (Max (set (concat (data sd)))))"
    using scanFrames_full [OF assms(5)] fold_scanCell_start [OF ne] by simp
  have "drawSpectrogram st =
      (case scanFrames (data sd) (length (data sd)) numBins 0 (None, None) of
         (Some minDb, Some maxDb) \<Rightarrow> st\<lparr>cachedMinDb := minDb, cachedMaxDb := maxDb\<rparr>
       | _ \<Rightarrow> st)\<lparr>spectrogramNeedsRedraw := False\<rparr>"
    using assms(1,3,6,7,8) cv idx r0 d by (simp add: drawSpectrogram_def numBinsOf_def Let_def)
  also have "\<dots> = st\<lparr>cachedMinDb := Min (set (concat (data sd))),
         cachedMaxDb := Max (set (concat (data sd))),
         spectrogramNeedsRedraw := False\<rparr>"
    by (simp only: scan prod.case option.case)
  finally show ?thesis by simp
qed

lemma numBinsOf_rows:
  assumes "\<forall>row \<in> set dat. length row = n" "dat \<noteq> []"
  shows "numBinsOf dat = n"
proof -
  obtain row0 rest where d: "dat = row0 # rest" using assms(2) by (cases dat) auto
  then show ?thesis using assms(1) by (simp add: numBinsOf_def js_index_def)
qed

text \<open>
  C7. For a loaded track and \<open>0 < max_freq \<le> Nyquist\<close>, under either reading of the
  specification for larger values, \<open>compute_spectrogram\<close> succeeds; all rows of its
  matrix have the same length and every entry is at least \<open>-200\<close> (entries are reals, so
  finite). The UI takes the bin count from row 0, which is then the length of every
  row, and reads every row up to it: when the matrix is not empty the range that
  \<open>drawSpectrogram\<close> caches is the least and the greatest entry of the whole matrix, and
  in the image of \<open>renderSpectrogramToCache\<close> (smaller than \<open>2^31\<close> bytes) the pixel in
  column \<open>x\<close> and row \<open>numBins - 1 - y\<close> carries the colour of entry \<open>data[x][y]\<close>, none
  that of an \<open>undefined\<close> read.
\<close>

theorem compute_spectrogram_matrix:
  assumes "0 < max_f" "max_f \<le> nyquist tr"
  shows "\<exists>r. compute_spectrogram policy (Some tr) max_f = Inr r \<and>
           (\<forall>row \<in> set (data r). \<forall>row' \<in> set (data r). length row = length row') \<and>
           (\<forall>row \<in> set (data r). \<forall>v \<in> set row. - 200 \<le> v) \<and>
           (\<forall>row \<in> set (data r). length row = numBinsOf (data r)) \<and>
           (\<forall>st. ctx st \<and> canvas st \<noteq> None \<and> spectrogramData st = Some r \<and> data r \<noteq> [] \<and>
                 cachedMinDb st = 0 \<and> cachedMaxDb st = 0 \<longrightarrow>
              cachedMinDb (drawSpectrogram st) = Min (set (concat (data r))) \<and>
              cachedMaxDb (drawSpectrogram st) = Max (set (concat (data r)))) \<and>
           (\<forall>st viridis dimmed.
              viridisLUT st = Some viridis \<and> dimmedLUT st = Some dimmed \<and>
              length (data r) * numBinsOf (data r) * 4 < 2 ^ 31 \<longrightarrow>
              (\<exists>pixels.
                 renderSpectrogramToCache st (data r) (length (data r)) (numBinsOf (data r))
                   = Inr (Some pixels) \<and>
                 (\<forall>x y k. x < length (data r) \<and> y < numBinsOf (data r) \<and> k < 4 \<longrightarrow>
                    pixels ! (((numBinsOf (data r) - 1 - y) * length (data r) + x) * 4 + k)
                      = painted_byte st viridis dimmed (Some (data r ! x ! y)) k)))"
proof -
  let ?sr = "AudioInfo.sample_rate (info tr)"
  let ?r = "stft (mono_mix tr) ?sr max_f"
  have run: "compute_spectrogram policy (Some tr) max_f = Inr ?r"
    using assms by (simp add: compute_spectrogram_def)
  have rows: "\<forall>row \<in> set (data ?r). length row = length (kept_bins ?sr max_f)"
    using stft_rows by blast
  have bins: "0 < length (kept_bins ?sr max_f)"
    using kept_bins_nonempty [of max_f ?sr] assms(1) by simp
  have floor: "\<forall>row \<in> set (data ?r). \<forall>v \<in> set row. - 200 \<le> v"
    using stft_rows by blast
  have row0: "\<forall>row \<in> set (data ?r). length row = numBinsOf (data ?r)"
  proof (cases "data ?r = []")
    case True
    then show ?thesis by simp
  next
    case False
    then show ?thesis using rows numBinsOf_rows [OF rows False] by simp
  qed
  have ui: "cachedMinDb (drawSpectrogram st) = Min (set (concat (data ?r))) \<and>
            cachedMaxDb (drawSpectrogram st) = Max (set (concat (data ?r)))"
    if "ctx st" "canvas st \<noteq> None" "spectrogramData st = Some ?r" "data ?r \<noteq> []"
       "cachedMinDb st = 0" "cachedMaxDb st = 0" for st
    using drawSpectrogram_range [OF that(1,2,3,4) rows bins that(5,6)] .
  have px: "\<exists>pixels.
      renderSpectrogramToCache st (data ?r) (length (data ?r)) (numBinsOf (data ?r))
        = Inr (Some pixels) \<and>
      (\<forall>x y k. x < length (data ?r) \<and> y < numBinsOf (data ?r) \<and> k < 4 \<longrightarrow>
         pixels ! (((numBinsOf (data ?r) - 1 - y) * length (data ?r) + x) * 4 + k)
           = painted_byte st vi di (Some (data ?r ! x ! y)) k)"
    if "viridisLUT st = Some vi" "dimmedLUT st = Some di"
       "length (data ?r) * numBinsOf (data ?r) * 4 < 2 ^ 31" for st vi di
    using renderSpectrogramToCache_cells [OF that(1,2) row0 that(3)] by blast
  show ?thesis
  proof (intro exI [of _ ?r] conjI)
    show "compute_spectrogram policy (Some tr) max_f = Inr ?r" by (rule run)
    show "\<forall>row \<in> set (data ?r). \<forall>row' \<in> set (data ?r). length row = length row'"
      using rows by simp
    show "\<forall>row \<in> set (data ?r). \<forall>v \<in> set row. - 200 \<le> v" by (rule floor)
    show "\<forall>row \<in> set (data ?r). length row = numBinsOf (data ?r)" by (rule row0)
    show "\<forall>st. ctx st \<and> canvas st \<noteq> None \<and> spectrogramData st = Some ?r \<and> data ?r \<noteq> [] \<and>
                 cachedMinDb st = 0 \<and> cachedMaxDb st = 0 \<longrightarrow>
              cachedMinDb (drawSpectrogram st) = Min (set (concat (data ?r))) \<and>
              cachedMaxDb (drawSpectrogram st) = Max (set (concat (data ?r)))"
      using ui by blast
    show "\<forall>st viridis dimmed.
              viridisLUT st = Some viridis \<and> dimmedLUT st = Some dimmed \<and>
              length (data ?r) * numBinsOf (data ?r) * 4 < 2 ^ 31 \<longrightarrow>
              (\<exists>pixels.
                 renderSpectrogramToCache st (data ?r) (length (data ?r)) (numBinsOf (data ?r))
                   = Inr (Some pixels) \<and>
                 (\<forall>x y k. x < length (data ?r) \<and> y < numBinsOf (data ?r) \<and> k < 4 \<longrightarrow>
                    pixels ! (((numBinsOf (data ?r) - 1 - y) * length (data ?r) + x) * 4 + k)
                      = painted_byte st viridis dimmed (Some (data ?r ! x ! y)) k))"
      using px by blast
  qed
qed

theorem compute_spectrogram_matrix_witness:
  "(0::real) < 8000 \<and> 8000 \<le> nyquist demo_track \<and>
   (\<exists>r. compute_spectrogram Reject_above_Nyquist (Some demo_track) 8000 = Inr r \<and>
        length (data r) = 5 \<and>
        (\<forall>row \<in> set (data r). \<forall>row' \<in> set (data r). length row = length row') \<and>
        (\<forall>row \<in> set (data r). \<forall>v \<in> set row. - 200 \<le> v) \<and>
        cachedMinDb (drawSpectrogram (demo_loaded\<lparr>spectrogramData := Some r\<rparr>))
          = Min (set (concat (data r))) \<and>
        cachedMaxDb (drawSpectrogram (demo_loaded\<lparr>spectrogramData := Some r\<rparr>))
          = Max (set (concat (data r))) \<and>
        (\<exists>pixels.
           renderSpectrogramToCache demo_loaded (data r) (length (data r)) (numBinsOf (data r))
             = Inr (Some pixels) \<and>
           pixels ! (((numBinsOf (data r) - 1 - 0) * length (data r) + 2) * 4 + 1)
             = painted_byte demo_loaded (replicate 768 200) (replicate 768 30)
                 (Some (data r ! 2 ! 0)) 1))"
proof -
  have h1: "(0::real) < 8000" by simp
  have h2: "8000 \<le> nyquist demo_track" by (simp add: nyquist_def demo_track_def)
  from compute_spectrogram_matrix [OF h1 h2, of Reject_above_Nyquist]
  obtain r where r: "compute_spectrogram Reject_above_Nyquist (Some demo_track) 8000 = Inr r \<and>
           (\<forall>row \<in> set (data r). \<forall>row' \<in> set (data r). length row = length row') \<and>
           (\<forall>row \<in> set (data r). \<forall>v \<in> set row. - 200 \<le> v) \<and>
           (\<forall>row \<in> set (data r). length row = numBinsOf (data r)) \<and>
           (\<forall>st. ctx st \<and> canvas st \<noteq> None \<and> spectrogramData st = Some r \<and> data r \<noteq> [] \<and>
                 cachedMinDb st = 0 \<and> cachedMaxDb st = 0 \<longrightarrow>
              cachedMinDb (drawSpectrogram st) = Min (set (concat (data r))) \<and>
              cachedMaxDb (drawSpectrogram st) = Max (set (concat (data r)))) \<and>
           (\<forall>st viridis dimmed.
              viridisLUT st = Some viridis \<and> dimmedLUT st = Some dimmed \<and>
              length (data r) * numBinsOf (data r) * 4 < 2 ^ 31 \<longrightarrow>
              (\<exists>pixels.
                 renderSpectrogramToCache st (data r) (length (data r)) (numBinsOf (data r))
                   = Inr (Some pixels) \<and>
                 (\<forall>x y k. x < length (data r) \<and> y < numBinsOf (data r) \<and> k < 4 \<longrightarrow>
                    pixels ! (((numBinsOf (data r) - 1 - y) * length (data r) + x) * 4 + k)
                      = painted_byte st viridis dimmed (Some (data r ! x ! y)) k)))"
    by (rule exE)
  have r_run: "compute_spectrogram Reject_above_Nyquist (Some demo_track) 8000 = Inr r"
    using r by (rule conjunct1)
  have r_rows: "\<forall>row \<in> set (data r). length row = numBinsOf (data r)"
    using r by (elim conjE)
  have r_range: "\<forall>st. ctx st \<and> canvas st \<noteq> None \<and> spectrogramData st = Some r \<and> data r \<noteq> [] \<and>
                 cachedMinDb st = 0 \<and> cachedMaxDb st = 0 \<longrightarrow>
              cachedMinDb (drawSpectrogram st) = Min (set (concat (data r))) \<and>
              cachedMaxDb (drawSpectrogram st) = Max (set (concat (data r)))"
    using r by (elim conjE)
  have r_pixels: "\<forall>st viridis dimmed.
              viridisLUT st = Some viridis \<and> dimmedLUT st = Some dimmed \<and>
              length (data r) * numBinsOf (data r) * 4 < 2 ^ 31 \<longrightarrow>
              (\<exists>pixels.
                 renderSpectrogramToCache st (data r) (length (data r)) (numBinsOf (data r))
                   = Inr (Some pixels) \<and>
                 (\<forall>x y k. x < length (data r) \<and> y < numBinsOf (data r) \<and> k < 4 \<longrightarrow>
                    pixels ! (((numBinsOf (data r) - 1 - y) * length (data r) + x) * 4 + k)
                      = painted_byte st viridis dimmed (Some (data r ! x ! y)) k))"
    using r by (elim conjE)
  have r_shape: "(\<forall>row \<in> set (data r). \<forall>row' \<in> set (data r). length row = length row') \<and>
      (\<forall>row \<in> set (data r). \<forall>v \<in> set row. - 200 \<le> v)"
    using r by (elim conjE) (rule conjI)
  have "compute_spectrogram Reject_above_Nyquist (Some demo_track) 8000
      = Inr (stft (mono_mix demo_track) 44100 8000)"
    using h2 by (simp add: compute_spectrogram_def demo_track_def)
  with r_run have req: "r = stft (mono_mix demo_track) 44100 8000" by simp
  then have len: "length (data r) = 5"
    by (simp add: stft_def mono_mix_def demo_track_def frame_count_def window_size_def hop_size_def)
  then have ne: "data r \<noteq> []" by auto
  have "data r ! 0 \<in> set (data r)" using len by simp
  then have "numBinsOf (data r) = length (data r ! 0)" using r_rows by simp
  also have "\<dots> = length (kept_bins 44100 8000)"
    using req by (simp add: stft_def frame_count_def mono_mix_def demo_track_def window_size_def
        hop_size_def frame_row_length)
  finally have nb: "numBinsOf (data r) = length (kept_bins 44100 8000)" .
  have pos: "0 < numBinsOf (data r)"
    using nb kept_bins_nonempty [of 8000 44100] by simp
  have "numBinsOf (data r) * 20 \<le> 1025 * 20" using nb demo_bins by simp
  then have small: "length (data r) * numBinsOf (data r) * 4 < 2 ^ 31"
    unfolding len by simp
  let ?st = "demo_loaded\<lparr>spectrogramData := Some r\<rparr>"
  have st: "ctx ?st \<and> canvas ?st \<noteq> None \<and> spectrogramData ?st = Some r \<and>
      cachedMinDb ?st = 0 \<and> cachedMaxDb ?st = 0"
    by (simp add: demo_loaded_def initial_app_def)
  have range: "cachedMinDb (drawSpectrogram ?st) = Min (set (concat (data r))) \<and>
        cachedMaxDb (drawSpectrogram ?st) = Max (set (concat (data r)))"
    using r_range st ne by blast
  have luts: "viridisLUT demo_loaded = Some (replicate 768 200) \<and>
      dimmedLUT demo_loaded = Some (replicate 768 30)"
    by (simp add: demo_loaded_def)
  from r_pixels luts small obtain pixels where
    px: "renderSpectrogramToCache demo_loaded (data r) (length (data r)) (numBinsOf (data r))
           = Inr (Some pixels) \<and>
         (\<forall>x y k. x < length (data r) \<and> y < numBinsOf (data r) \<and> k < 4 \<longrightarrow>
            pixels ! (((numBinsOf (data r) - 1 - y) * length (data r) + x) * 4 + k)
              = painted_byte demo_loaded (replicate 768 200) (replicate 768 30)
                  (Some (data r ! x ! y)) k)"
    by blast
  have "(2::nat) < length (data r) \<and> 0 < numBinsOf (data r) \<and> (1::nat) < 4"
    using len pos by simp
  with px have cell: "pixels ! (((numBinsOf (data r) - 1 - 0) * length (data r) + 2) * 4 + 1)
      = painted_byte demo_loaded (replicate 768 200) (replicate 768 30) (Some (data r ! 2 ! 0)) 1"
    by blast
  have run_px: "renderSpectrogramToCache demo_loaded (data r) (length (data r)) (numBinsOf (data r))
           = Inr (Some pixels)"
    using px by (rule conjunct1)
  show ?thesis
    using h1 h2 r_run len r_shape range run_px cell by (intro conjI exI [of _ r] exI [of _ pixels]) blast+
qed

section \<open>max_freq above the Nyquist rate\<close>

text \<open>
  The two readings of the specification differ exactly above the Nyquist rate: under
  the clamping one every such request gives the result of the request at the Nyquist
  rate, under the rejecting one every such request fails.
\<close>

lemma compute_spectrogram_clamp_reading:
  assumes "0 < nyquist tr" "nyquist tr \<le> max_f"
  shows "compute_spectrogram Clamp_to_Nyquist (Some tr) max_f
           = compute_spectrogram Clamp_to_Nyquist (Some tr) (nyquist tr)"
  using assms by (simp add: compute_spectrogram_def)

lemma compute_spectrogram_reject_reading:
  assumes "0 < nyquist tr" "nyquist tr < max_f"
  shows "compute_spectrogram Reject_above_Nyquist (Some tr) max_f = Inl InvalidParameter"
  using assms by (simp add: compute_spectrogram_def)

section \<open>The range that exportAudio sends\<close>

lemma exportAudio_finite:
  assumes "audioInfo st = Some ai" "selectionStart st = Some (Fin a)"
    "selectionEnd st = Some (Fin b)"
  shows "exportAudio e st =
     (if js_lt (binary64 (max a b - min a b)) (binary64 (1 / 100)) then
        (st\<lparr>error := ''Selection too short to export''\<rparr>, [])
      else
        let opts = wav_save_options (filePath st); t0 = [SaveDialog opts]
        in (case save_dialog e opts of
              Inl err \<Rightarrow> (st\<lparr>error := err, exportLoading := False\<rparr>, t0)
            | Inr None \<Rightarrow> (st, t0)
            | Inr (Some outputPath) \<Rightarrow>
               (if outputPath = [] then (st, t0)
                else
                  let st1 = st\<lparr>exportLoading := True, error := []\<rparr>;
                      t1 = t0 @ [Invoke (Export_audio outputPath (Fin (min a b)) (Fin (max a b)))]
                  in (case invoke_export_audio e outputPath (Fin (min a b)) (Fin (max a b)) of
                        Some err \<Rightarrow> (st1\<lparr>error := err, exportLoading := False\<rparr>, t1)
                      | None \<Rightarrow> (st1\<lparr>exportLoading := False\<rparr>, t1)))))"
  using assms by (simp add: exportAudio_def Let_def)

text \<open>
  C8, with the comparison as the code makes it. For a selection whose two ends are
  finite: every command \<open>exportAudio\<close> invokes is an \<open>export_audio\<close> whose start is the
  smaller and whose end is the larger end; the difference of the two, rounded to a
  double, is not below the double \<open>0.01\<close>, and the exact difference is more than
  \<open>0.01 - 10^-18\<close> s. With no selection, or with finite ends whose rounded difference is
  below the double \<open>0.01\<close> (as it is whenever the exact difference is at most
  \<open>0.01 - 10^-18\<close> s), it sets an error message and issues nothing.
\<close>

theorem exportAudio_range_guard:
  assumes "exportAudio e st = (st', trace)"
  shows "(\<forall>a b c. selectionStart st = Some (Fin a) \<and> selectionEnd st = Some (Fin b) \<and>
              Invoke c \<in> set trace \<longrightarrow>
            (\<exists>outputPath. c = Export_audio outputPath (Fin (min a b)) (Fin (max a b))) \<and>
            \<not> js_lt (binary64 (max a b - min a b)) (binary64 (1 / 100)) \<and>
            1 / 100 - 1 / 10 ^ 18 < max a b - min a b) \<and>
         ((selectionStart st = None \<or> selectionEnd st = None \<or>
           (\<exists>a b. selectionStart st = Some (Fin a) \<and> selectionEnd st = Some (Fin b) \<and>
              (js_lt (binary64 (max a b - min a b)) (binary64 (1 / 100)) \<or>
               max a b - min a b \<le> 1 / 100 - 1 / 10 ^ 18))) \<longrightarrow>
            trace = [] \<and> error st' \<noteq> [])"
proof (cases "audioInfo st")
  case None
  then show ?thesis using assms by (auto simp: exportAudio_def)
next
  case info: (Some ai)
  have null: "trace = [] \<and> error st' \<noteq> []"
    if "selectionStart st = None \<or> selectionEnd st = None"
    using that assms info by (auto simp: exportAudio_def split: option.splits)
  have short: "trace = [] \<and> error st' \<noteq> []"
    if "selectionStart st = Some (Fin a)" "selectionEnd st = Some (Fin b)"
       "js_lt (binary64 (max a b - min a b)) (binary64 (1 / 100))" for a b
    using assms that by (auto simp: exportAudio_finite [OF info that(1,2)])
  have long: "(\<exists>outputPath. c = Export_audio outputPath (Fin (min a b)) (Fin (max a b))) \<and>
         \<not> js_lt (binary64 (max a b - min a b)) (binary64 (1 / 100))"
    if "selectionStart st = Some (Fin a)" "selectionEnd st = Some (Fin b)"
       "Invoke c \<in> set trace" for a b c
    using assms that(3)
    by (auto simp: exportAudio_finite [OF info that(1,2)] Let_def
          split: if_splits sum.splits option.splits)
  have bound: "1 / 100 - 1 / 10 ^ 18 < x" if "\<not> js_lt (binary64 x) (binary64 (1 / 100))" for x
    using that binary64_below_threshold [of x] by force
  have below: "js_lt (binary64 x) (binary64 (1 / 100))" if "x \<le> 1 / 100 - 1 / 10 ^ 18" for x
    using that by (rule binary64_below_threshold)
  show ?thesis
  proof (intro conjI allI impI)
    fix a b c
    assume h: "selectionStart st = Some (Fin a) \<and> selectionEnd st = Some (Fin b) \<and>
      Invoke c \<in> set trace"
    then have l: "(\<exists>outputPath. c = Export_audio outputPath (Fin (min a b)) (Fin (max a b))) \<and>
         \<not> js_lt (binary64 (max a b - min a b)) (binary64 (1 / 100))"
      using long by blast
    then show "\<exists>outputPath. c = Export_audio outputPath (Fin (min a b)) (Fin (max a b))"
      by (rule conjunct1)
    from l show "\<not> js_lt (binary64 (max a b - min a b)) (binary64 (1 / 100))"
      by (rule conjunct2)
    then show "1 / 100 - 1 / 10 ^ 18 < max a b - min a b" by (rule bound)
  next
    assume "selectionStart st = None \<or> selectionEnd st = None \<or>
           (\<exists>a b. selectionStart st = Some (Fin a) \<and> selectionEnd st = Some (Fin b) \<and>
              (js_lt (binary64 (max a b - min a b)) (binary64 (1 / 100)) \<or>
               max a b - min a b \<le> 1 / 100 - 1 / 10 ^ 18))"
    then have r: "trace = [] \<and> error st' \<noteq> []"
    proof (elim disjE exE conjE)
      assume "selectionStart st = None"
      then show ?thesis using null by simp
    next
      assume "selectionEnd st = None"
      then show ?thesis using null by simp
    next
      fix a b
      assume "selectionStart st = Some (Fin a)" "selectionEnd st = Some (Fin b)"
        "js_lt (binary64 (max a b - min a b)) (binary64 (1 / 100))"
      then show ?thesis by (rule short)
    next
      fix a b
      assume s: "selectionStart st = Some (Fin a)" "selectionEnd st = Some (Fin b)"
        and le: "max a b - min a b \<le> 1 / 100 - 1 / 10 ^ 18"
      from le have "js_lt (binary64 (max a b - min a b)) (binary64 (1 / 100))" by (rule below)
      with s show ?thesis by (rule short)
    qed
    from r show "trace = []" by (rule conjunct1)
    from r show "error st' \<noteq> []" by (rule conjunct2)
  qed
qed

lemma demo_export:
  "snd (exportAudio demo_env demo_selected) =
     [SaveDialog (wav_save_options ''/music/take.one.flac''),
      Invoke (Export_audio ''/tmp/out.wav'' (Fin 1) (Fin (5 / 2)))]"
  by (simp add: exportAudio_def demo_selected_def demo_loaded_def initial_app_def demo_env_def
        Let_def binary64_3_2 binary64_hundredth)

theorem exportAudio_range_guard_witness:
  "selectionStart demo_selected = Some (Fin (5 / 2)) \<and>
   selectionEnd demo_selected = Some (Fin 1) \<and>
   snd (exportAudio demo_env demo_selected) =
     [SaveDialog (wav_save_options ''/music/take.one.flac''),
      Invoke (Export_audio ''/tmp/out.wav'' (Fin 1) (Fin (5 / 2)))] \<and>
   (\<exists>outputPath. Export_audio ''/tmp/out.wav'' (Fin 1) (Fin (5 / 2)) =
       Export_audio outputPath (Fin (min (5 / 2) 1)) (Fin (max (5 / 2) 1))) \<and>
   \<not> js_lt (binary64 (max (5 / 2) 1 - min (5 / 2) 1)) (binary64 (1 / 100)) \<and>
   1 / 100 - 1 / 10 ^ 18 < max (5 / 2) 1 - min (5 / 2) (1 :: real)"
proof -
  have run: "exportAudio demo_env demo_selected
      = (fst (exportAudio demo_env demo_selected), snd (exportAudio demo_env demo_selected))"
    by simp
  have s: "selectionStart demo_selected = Some (Fin (5 / 2))"
    "selectionEnd demo_selected = Some (Fin 1)"
    by (simp_all add: demo_selected_def)
  have i: "Invoke (Export_audio ''/tmp/out.wav'' (Fin 1) (Fin (5 / 2)))
      \<in> set (snd (exportAudio demo_env demo_selected))"
    by (simp add: demo_export)
  have "\<forall>a b c. selectionStart demo_selected = Some (Fin a) \<and>
          selectionEnd demo_selected = Some (Fin b) \<and>
          Invoke c \<in> set (snd (exportAudio demo_env demo_selected)) \<longrightarrow>
        (\<exists>outputPath. c = Export_audio outputPath (Fin (min a b)) (Fin (max a b))) \<and>
        \<not> js_lt (binary64 (max a b - min a b)) (binary64 (1 / 100)) \<and>
        1 / 100 - 1 / 10 ^ 18 < max a b - min a b"
    using exportAudio_range_guard [OF run] by (rule conjunct1)
  with s i have "(\<exists>outputPath. Export_audio ''/tmp/out.wav'' (Fin 1) (Fin (5 / 2)) =
       Export_audio outputPath (Fin (min (5 / 2) 1)) (Fin (max (5 / 2) 1))) \<and>
   \<not> js_lt (binary64 (max (5 / 2) 1 - min (5 / 2) 1)) (binary64 (1 / 100)) \<and>
   1 / 100 - 1 / 10 ^ 18 < max (5 / 2) 1 - min (5 / 2) (1 :: real)"
    by blast
  with s demo_export show ?thesis by (intro conjI) (rule s demo_export, simp_all)
qed

text \<open>
  Without the rounding the property fails. The selection from \<open>2^-62\<close> s to the double
  \<open>0.01\<close> is shorter than 0.01 s, but its length rounds to the double \<open>0.01\<close>, which is
  not below itself: the command is issued. And a selection whose ends are \<open>NaN\<close> has the
  length \<open>NaN\<close>, which is below nothing: the command is issued with \<open>NaN\<close> as start and
  as end.
\<close>

theorem exportAudio_range_guard_counterexample:
  "selectionStart demo_sliver = Some (Fin (1 / 2 ^ 62)) \<and>
   selectionEnd demo_sliver = Some (Fin (5764607523034235 / 2 ^ 59)) \<and>
   snd (exportAudio demo_env demo_sliver) =
     [SaveDialog (wav_save_options ''/music/take.one.flac''),
      Invoke (Export_audio ''/tmp/out.wav'' (Fin (1 / 2 ^ 62))
                (Fin (5764607523034235 / 2 ^ 59)))] \<and>
   5764607523034235 / 2 ^ 59 - 1 / 2 ^ 62 < (1 / 100 :: real) \<and>
   selectionStart demo_nan = Some NaN \<and> selectionEnd demo_nan = Some NaN \<and>
   snd (exportAudio demo_env demo_nan) =
     [SaveDialog (wav_save_options ''/music/take.one.flac''),
      Invoke (Export_audio ''/tmp/out.wav'' NaN NaN)]"
proof -
  have order: "min (1 / 2 ^ 62) (5764607523034235 / 2 ^ 59) = (1 / 2 ^ 62 :: real)"
    "max (1 / 2 ^ 62) (5764607523034235 / 2 ^ 59) = (5764607523034235 / 2 ^ 59 :: real)"
    by simp_all
  have ends: "audioInfo demo_sliver = Some demo_info"
    "selectionStart demo_sliver = Some (Fin (1 / 2 ^ 62))"
    "selectionEnd demo_sliver = Some (Fin (5764607523034235 / 2 ^ 59))"
    by (simp_all add: demo_sliver_def demo_loaded_def)
  have guard: "\<not> js_lt (binary64 (max (1 / 2 ^ 62) (5764607523034235 / 2 ^ 59)
                                  - min (1 / 2 ^ 62) (5764607523034235 / 2 ^ 59)))
                       (binary64 (1 / 100))"
    by (simp only: order binary64_below_hundredth binary64_hundredth js_lt.simps)
  note run = exportAudio_finite [OF ends, of demo_env]
  have "exportAudio demo_env demo_sliver =
     (let opts = wav_save_options (filePath demo_sliver); t0 = [SaveDialog opts]
      in (case save_dialog demo_env opts of
            Inl err \<Rightarrow> (demo_sliver\<lparr>error := err, exportLoading := False\<rparr>, t0)
          | Inr None \<Rightarrow> (demo_sliver, t0)
          | Inr (Some outputPath) \<Rightarrow>
             (if outputPath = [] then (demo_sliver, t0)
              else
                let st1 = demo_sliver\<lparr>exportLoading := True, error := []\<rparr>;
                    t1 = t0 @ [Invoke (Export_audio outputPath
                      (Fin (min (1 / 2 ^ 62) (5764607523034235 / 2 ^ 59)))
                      (Fin (max (1 / 2 ^ 62) (5764607523034235 / 2 ^ 59))))]
                in (case invoke_export_audio demo_env outputPath
                      (Fin (min (1 / 2 ^ 62) (5764607523034235 / 2 ^ 59)))
                      (Fin (max (1 / 2 ^ 62) (5764607523034235 / 2 ^ 59))) of
                      Some err \<Rightarrow> (st1\<lparr>error := err, exportLoading := False\<rparr>, t1)
                    | None \<Rightarrow> (st1\<lparr>exportLoading := False\<rparr>, t1)))))"
    using guard by (simp only: run if_False)
  then have sliver: "snd (exportAudio demo_env demo_sliver) =
     [SaveDialog (wav_save_options ''/music/take.one.flac''),
      Invoke (Export_audio ''/tmp/out.wav'' (Fin (1 / 2 ^ 62))
                (Fin (5764607523034235 / 2 ^ 59)))]"
    by (simp add: demo_sliver_def demo_loaded_def initial_app_def demo_env_def Let_def)
  have nan: "snd (exportAudio demo_env demo_nan) =
     [SaveDialog (wav_save_options ''/music/take.one.flac''),
      Invoke (Export_audio ''/tmp/out.wav'' NaN NaN)]"
    by (simp add: exportAudio_def demo_nan_def demo_loaded_def initial_app_def demo_env_def
          Let_def)
  have short: "5764607523034235 / 2 ^ 59 - 1 / 2 ^ 62 < (1 / 100 :: real)" by simp
  show ?thesis
    using sliver nan short by (simp add: demo_sliver_def demo_nan_def)
qed

section \<open>Dragging a filter line\<close>

lemma drawSpectrogram_filters:
  "highPassFreq (drawSpectrogram st) = highPassFreq st"
  "lowPassFreq (drawSpectrogram st) = lowPassFreq st"
  "maxFreq (drawSpectrogram st) = maxFreq st"
  by (simp_all add: drawSpectrogram_def Let_def split: option.splits prod.splits)

lemma binary64_0: "binary64 0 = Fin 0"
  by (simp add: binary64_def)

lemma demo_flat_frequency: "yToFrequency demo_flat (Fin 30) = NaN"
  by (simp add: yToFrequency_def demo_flat_def demo_loaded_def Let_def binary64_0)

text \<open>
  C9 does not hold for every mouse move. On a canvas that is 30 pixels high the area
  under the frequency bar has the height 0. With the high-pass line being dragged, a
  move to \<open>y = 30\<close> makes \<open>yToFrequency\<close> divide 0 by 0, and the handler stores the
  resulting \<open>NaN\<close> in \<open>highPassFreq\<close>: \<open>0 \<le> 100 \<le> 8000 - 100\<close> and \<open>8000 \<le> 8000\<close> held
  before the move, and after it \<open>highPassFreq\<close> is not a number.
\<close>

theorem filter_drag_stores_nan:
  "draggingFilter demo_flat = Some highpass \<and>
   highPassFreq demo_flat = Fin 100 \<and> lowPassFreq demo_flat = Fin 8000 \<and>
   maxFreq demo_flat = 8000 \<and> band_separation demo_flat \<and>
   highPassFreq (handleCanvasMouseMove demo_edge demo_flat) = NaN \<and>
   \<not> band_separation (handleCanvasMouseMove demo_edge demo_flat)"
proof -
  have before: "draggingFilter demo_flat = Some highpass" "highPassFreq demo_flat = Fin 100"
    "lowPassFreq demo_flat = Fin 8000" "maxFreq demo_flat = 8000"
    by (simp_all add: demo_flat_def demo_loaded_def initial_app_def)
  then have inv: "band_separation demo_flat" by (simp add: band_separation_def)
  have loaded: "canvas demo_flat = Some \<lparr>width = 860, height = 30, rect_left = 0, rect_top = 0\<rparr>"
    "spectrogramData demo_flat = Some demo_spectrogram" "audioInfo demo_flat = Some demo_info"
    "isSelecting demo_flat = False"
    by (simp_all add: demo_flat_def demo_loaded_def initial_app_def)
  have step: "handleCanvasMouseMove demo_edge demo_flat =
      drawSpectrogram (demo_flat\<lparr>highPassFreq := NaN\<rparr>)"
    by (simp add: handleCanvasMouseMove_def loaded before demo_edge_def Let_def binary64_30
          demo_flat_frequency)
  have after: "highPassFreq (handleCanvasMouseMove demo_edge demo_flat) = NaN"
    by (simp add: step drawSpectrogram_filters)
  then have "\<not> band_separation (handleCanvasMouseMove demo_edge demo_flat)"
    by (simp add: band_separation_def)
  with before inv after show ?thesis by simp
qed

section \<open>The saturation curve\<close>

lemma saturation_fill_spec:
  assumes "0 \<le> k" "length curve = curve_samples"
  shows "\<exists>c. saturation_fill k i curve = Some c \<and> length c = curve_samples \<and>
           (\<forall>j<curve_samples. c ! j = (if j < i then curve ! j else shape k j))"
  using assms
proof (induction k i curve rule: saturation_fill.induct)
  case (1 k i curve)
  show ?case
  proof (cases "i < curve_samples")
    case False
    then show ?thesis using "1.prems" by (simp add: saturation_fill.simps [of k i curve])
  next
    case True
    define x where "x = (real i * 2) / real curve_samples - 1"
    have den: "1 + k * \<bar>x\<bar> \<noteq> 0"
    proof -
      have "0 \<le> k * \<bar>x\<bar>" using "1.prems"(1) by simp
      then show ?thesis by linarith
    qed
    define v where "v = ((1 + k) * x) / (1 + k * \<bar>x\<bar>)"
    have dv: "js_div ((1 + k) * x) (1 + k * \<bar>x\<bar>) = Some v"
      using den by (simp add: js_div_def v_def)
    have len: "length (curve[i := v]) = curve_samples" using "1.prems"(2) by simp
    from "1.IH" [OF True x_def dv "1.prems"(1) len]
    obtain c where c: "saturation_fill k (i + 1) (curve[i := v]) = Some c"
      "length c = curve_samples"
      "\<forall>j<curve_samples. c ! j = (if j < i + 1 then (curve[i := v]) ! j else shape k j)"
      by blast
    have step: "saturation_fill k i curve = Some c"
      using True dv c(1) by (simp add: saturation_fill.simps [of k i curve] x_def Let_def)
    have vs: "v = shape k i" by (simp add: v_def shape_def x_def Let_def)
    have "\<forall>j<curve_samples. c ! j = (if j < i then curve ! j else shape k j)"
    proof (intro allI impI)
      fix j assume j: "j < curve_samples"
      show "c ! j = (if j < i then curve ! j else shape k j)"
      proof (cases "j = i")
        case True
        then show ?thesis using c(3) j "1.prems"(2) vs by simp
      next
        case False
        then show ?thesis using c(3) j by (auto simp: less_Suc_eq)
      qed
    qed
    with step c(2) show ?thesis by blast
  qed
qed

lemma shape_bounds:
  assumes "0 \<le> k" "i < curve_samples"
  shows "- 1 \<le> shape k i \<and> shape k i \<le> 1"
proof -
  define x where "x = (real i * 2) / real curve_samples - 1"
  have xr: "\<bar>x\<bar> \<le> 1"
    using assms(2) by (simp add: x_def curve_samples_def abs_le_iff field_simps)
  have den: "0 < 1 + k * \<bar>x\<bar>"
  proof -
    have "0 \<le> k * \<bar>x\<bar>" using assms(1) by simp
    then show ?thesis by linarith
  qed
  have "\<bar>(1 + k) * x\<bar> \<le> 1 + k * \<bar>x\<bar>"
  proof -
    have "\<bar>(1 + k) * x\<bar> = (1 + k) * \<bar>x\<bar>"
      using assms(1) by (simp add: abs_mult)
    also have "\<dots> = \<bar>x\<bar> + k * \<bar>x\<bar>"
      by (simp add: algebra_simps)
    finally have "\<bar>(1 + k) * x\<bar> = \<bar>x\<bar> + k * \<bar>x\<bar>" .
    then show ?thesis using xr by linarith
  qed
  then have lo: "- (1 + k * \<bar>x\<bar>) \<le> (1 + k) * x" and hi: "(1 + k) * x \<le> 1 + k * \<bar>x\<bar>"
    by linarith+
  have "- 1 \<le> ((1 + k) * x) / (1 + k * \<bar>x\<bar>)"
    using den lo by (simp add: pos_le_divide_eq)
  moreover have "((1 + k) * x) / (1 + k * \<bar>x\<bar>) \<le> 1"
    using den hi by (simp add: pos_divide_le_eq)
  ultimately show ?thesis
    by (simp only: shape_def x_def Let_def)
qed

lemma soft_clip_mono:
  fixes a b k :: real
  assumes "0 \<le> k" "a \<le> b"
  shows "((1 + k) * a) / (1 + k * \<bar>a\<bar>) \<le> ((1 + k) * b) / (1 + k * \<bar>b\<bar>)"
proof -
  have da: "0 < 1 + k * \<bar>a\<bar>"
  proof -
    have "0 \<le> k * \<bar>a\<bar>" using assms(1) by simp
    then show ?thesis by linarith
  qed
  have db: "0 < 1 + k * \<bar>b\<bar>"
  proof -
    have "0 \<le> k * \<bar>b\<bar>" using assms(1) by simp
    then show ?thesis by linarith
  qed
  have key: "a * \<bar>b\<bar> \<le> b * \<bar>a\<bar>"
  proof (cases "0 \<le> a")
    case True
    then have "0 \<le> b" using assms(2) by linarith
    with True show ?thesis by (simp add: mult.commute)
  next
    case False
    then have an: "a < 0" by simp
    show ?thesis
    proof (cases "0 \<le> b")
      case True
      have "a * \<bar>b\<bar> \<le> 0" using an by (simp add: mult_le_0_iff)
      moreover have "0 \<le> b * \<bar>a\<bar>" using True by simp
      ultimately show ?thesis by linarith
    next
      case False
      with an show ?thesis by (simp add: mult.commute)
    qed
  qed
  have "a * (1 + k * \<bar>b\<bar>) \<le> b * (1 + k * \<bar>a\<bar>)"
  proof -
    have "k * (a * \<bar>b\<bar>) \<le> k * (b * \<bar>a\<bar>)"
      using key assms(1) by (rule mult_left_mono)
    then show ?thesis using assms(2) by (simp add: algebra_simps)
  qed
  then have "((1 + k) * a) * (1 + k * \<bar>b\<bar>) \<le> ((1 + k) * b) * (1 + k * \<bar>a\<bar>)"
    using assms(1) by (simp add: mult.assoc mult_left_mono)
  then have "((1 + k) * a) / (1 + k * \<bar>a\<bar>) * (1 + k * \<bar>b\<bar>) \<le> (1 + k) * b"
    using da by (simp add: pos_divide_le_eq mult.commute mult.left_commute)
  then show ?thesis
    using db by (simp add: pos_le_divide_eq)
qed

lemma shape_mono:
  assumes "0 \<le> k" "i \<le> j"
  shows "shape k i \<le> shape k j"
proof -
  have "(real i * 2) / real curve_samples - 1 \<le> (real j * 2) / real curve_samples - 1"
    using assms(2) by (simp add: curve_samples_def divide_right_mono)
  then show ?thesis
    unfolding shape_def Let_def using assms(1) by (rule soft_clip_mono [rotated])
qed

text \<open>
  C10. For \<open>amount\<close> in \<open>[0, 1]\<close> the curve of \<open>makeSaturationCurve\<close> has 44100 entries,
  each in \<open>[-1, 1]\<close>, nondecreasing in the index (over the reals: rounding to
  \<open>Float32\<close> is not modelled).
\<close>

theorem makeSaturationCurve_bounded_monotone:
  assumes "0 \<le> amount" "amount \<le> 1"
  shows "\<exists>curve. makeSaturationCurve amount = Some curve \<and> length curve = 44100 \<and>
           (\<forall>i<44100. - 1 \<le> curve ! i \<and> curve ! i \<le> 1) \<and>
           (\<forall>i j. i \<le> j \<and> j < 44100 \<longrightarrow> curve ! i \<le> curve ! j)"
proof -
  have k: "0 \<le> amount * 50" using assms(1) by simp
  have len: "length (replicate curve_samples (0::real)) = curve_samples" by simp
  from saturation_fill_spec [OF k len, of 0]
  obtain c where c: "saturation_fill (amount * 50) 0 (replicate curve_samples 0) = Some c"
    "length c = curve_samples" "\<forall>j<curve_samples. c ! j = shape (amount * 50) j"
    by auto
  have cs: "curve_samples = 44100" by (simp add: curve_samples_def)
  have "makeSaturationCurve amount = Some c"
    using c(1) by (simp add: makeSaturationCurve_def Let_def)
  moreover have "length c = 44100" using c(2) cs by simp
  moreover have "\<forall>i<44100. - 1 \<le> c ! i \<and> c ! i \<le> 1"
    using c(3) shape_bounds [OF k] cs by simp
  moreover have "\<forall>i j. i \<le> j \<and> j < 44100 \<longrightarrow> c ! i \<le> c ! j"
    using c(3) shape_mono [OF k] cs by simp
  ultimately show ?thesis by blast
qed

theorem makeSaturationCurve_bounded_monotone_witness:
  "(0::real) \<le> 3 / 10 \<and> (3 / 10 :: real) \<le> 1 \<and>
   (\<exists>curve. makeSaturationCurve (3 / 10) = Some curve \<and> length curve = 44100 \<and>
           (\<forall>i<44100. - 1 \<le> curve ! i \<and> curve ! i \<le> 1) \<and>
           (\<forall>i j. i \<le> j \<and> j < 44100 \<longrightarrow> curve ! i \<le> curve ! j))"
  using makeSaturationCurve_bounded_monotone [of "3 / 10"] by simp

end
